theory Spec2Isabelle
  imports Complex_Main
begin

section \<open>Floating-point values, errors and arrays\<close>

text \<open>
  The Python sources compute with NumPy \<open>float64\<close> values. The embedding keeps the one
  non-number the code itself tests for and writes, the not-a-number \<open>NaN\<close>, and takes
  every other value as an exact real number: rounding, overflow and the infinities are
  not modelled. Arithmetic propagates \<open>NaN\<close>, every comparison with \<open>NaN\<close> is false,
  and the square root of a negative number is \<open>NaN\<close>, as in NumPy.
\<close>

datatype fl = NaN | Fin real

fun fadd :: "fl \<Rightarrow> fl \<Rightarrow> fl" where
  "fadd (Fin a) (Fin b) = Fin (a + b)"
| "fadd _ _ = NaN"

fun fsub :: "fl \<Rightarrow> fl \<Rightarrow> fl" where
  "fsub (Fin a) (Fin b) = Fin (a - b)"
| "fsub _ _ = NaN"

fun fmul :: "fl \<Rightarrow> fl \<Rightarrow> fl" where
  "fmul (Fin a) (Fin b) = Fin (a * b)"
| "fmul _ _ = NaN"

fun fneg :: "fl \<Rightarrow> fl" where
  "fneg (Fin a) = Fin (- a)"
| "fneg NaN = NaN"

fun fsqrt :: "fl \<Rightarrow> fl" where
  "fsqrt (Fin a) = (if a < 0 then NaN else Fin (sqrt a))"
| "fsqrt NaN = NaN"



fun isnan :: "fl \<Rightarrow> bool" where
  "isnan NaN = True"
| "isnan (Fin a) = False"

text \<open>
  Exceptions are values. \<open>ValueError\<close> carries the message of the \<^verbatim>\<open>raise\<close>.
  An index out of range is \<open>IndexError\<close>, as in Python (the compiled code does not
  check bounds; the embedding follows the Python meaning of the source).
\<close>

datatype error = IndexError | KeyError | ValueError string | ZeroDivisionError

definition ebind :: "error + 'a \<Rightarrow> ('a \<Rightarrow> error + 'b) \<Rightarrow> error + 'b" where
  "ebind r f = (case r of Inl e \<Rightarrow> Inl e | Inr v \<Rightarrow> f v)"

text \<open>A \<^verbatim>\<open>for\<close> loop over a range whose body may raise: the first error ends it.\<close>

fun efold :: "('a \<Rightarrow> 's \<Rightarrow> error + 's) \<Rightarrow> 'a list \<Rightarrow> 's \<Rightarrow> error + 's" where
  "efold f [] s = Inr s"
| "efold f (x # xs) s = ebind (f x s) (efold f xs)"

text \<open>
  A two-dimensional array is the list of its rows. \<open>full r c v\<close> is
  \<^verbatim>\<open>np.full((r, c), v)\<close>; \<open>get2 p n m\<close> reads \<^verbatim>\<open>p[n, m]\<close> and
  \<open>set2 p n m v\<close> is the assignment \<^verbatim>\<open>p[n, m] = v\<close>, both with a
  non-negative index pair (every index expression of the sources is non-negative
  where it is evaluated).
\<close>

type_synonym table = "fl list list"

definition full :: "nat \<Rightarrow> nat \<Rightarrow> fl \<Rightarrow> table" where
  "full r c v = replicate r (replicate c v)"

definition get2 :: "table \<Rightarrow> nat \<Rightarrow> nat \<Rightarrow> error + fl" where
  "get2 p n m = (if n < length p \<and> m < length (p ! n) then Inr (p ! n ! m) else Inl IndexError)"

definition set2 :: "table \<Rightarrow> nat \<Rightarrow> nat \<Rightarrow> fl \<Rightarrow> error + table" where
  "set2 p n m v =
     (if n < length p \<and> m < length (p ! n) then Inr (p[n := (p ! n)[m := v]])
      else Inl IndexError)"

definition shape :: "table \<Rightarrow> nat \<Rightarrow> nat \<Rightarrow> bool" where
  "shape p r c = (length p = r \<and> list_all (\<lambda>row. length row = c) p)"

section \<open>Associated Legendre functions (\<^verbatim>\<open>_spherical_harmonics/legendre.py\<close>)\<close>

text \<open>
  The three constructors \<^verbatim>\<open>assoc_legendre\<close>, \<^verbatim>\<open>assoc_legendre_schmidt\<close> and
  \<^verbatim>\<open>assoc_legendre_full\<close> run the same two nested loops and differ in the
  coefficients \<^verbatim>\<open>a_nm\<close>, \<^verbatim>\<open>b_nm\<close>, \<^verbatim>\<open>c_nm\<close>, \<^verbatim>\<open>d_nm\<close> and in \<^verbatim>\<open>p[0, 0]\<close>.
  The loops are written once, over a record of the coefficients; each constructor is
  the loops at its own coefficients. The loop counters are natural numbers (the ranges
  start at 0 or 1) and the integer expressions of the coefficients are evaluated in the
  reals, where they agree with Python's integers followed by true division. All
  divisors and all arguments of \<^verbatim>\<open>np.sqrt\<close> in the coefficients are positive for
  \<open>1 \<le> n\<close> and \<open>m < n - 1\<close>.
\<close>

record coeffs =
  a_nm :: "nat \<Rightarrow> nat \<Rightarrow> real"
  b_nm :: "nat \<Rightarrow> nat \<Rightarrow> real"
  c_nm :: "nat \<Rightarrow> real"
  d_nm :: "nat \<Rightarrow> real"
  p00 :: real

text \<open>\<^verbatim>\<open>p[n, m] = a_nm * x * p[n - 1, m] + b_nm * p[n - 2, m]\<close>\<close>

definition legendre_inner :: "coeffs \<Rightarrow> real \<Rightarrow> nat \<Rightarrow> nat \<Rightarrow> table \<Rightarrow> error + table" where
  "legendre_inner cf x n m p =
     ebind (get2 p (n - 1) m) (\<lambda>p1.
     ebind (get2 p (n - 2) m) (\<lambda>p2.
       set2 p n m (fadd (fmul (fmul (Fin (a_nm cf n m)) (Fin x)) p1) (fmul (Fin (b_nm cf n m)) p2))))"

text \<open>The body of \<^verbatim>\<open>for n in range(1, max_degree + 1)\<close>.\<close>

definition legendre_row :: "coeffs \<Rightarrow> real \<Rightarrow> fl \<Rightarrow> nat \<Rightarrow> table \<Rightarrow> error + table" where
  "legendre_row cf x sqrt_x n p =
     ebind (efold (legendre_inner cf x n) [0..<n - 1] p) (\<lambda>p.
     ebind (get2 p (n - 1) (n - 1)) (\<lambda>q.
     ebind (set2 p n (n - 1) (fmul (fmul (Fin (c_nm cf n)) (Fin x)) q)) (\<lambda>p.
     ebind (get2 p (n - 1) (n - 1)) (\<lambda>q.
       set2 p n n (fmul (fmul (Fin (d_nm cf n)) sqrt_x) q)))))"

text \<open>
  Everything after the allocation \<^verbatim>\<open>p = np.full(...)\<close>, as a function of the
  allocated table.
\<close>

definition legendre_fill :: "coeffs \<Rightarrow> real \<Rightarrow> nat \<Rightarrow> table \<Rightarrow> error + table" where
  "legendre_fill cf x max_degree p =
     (let sqrt_x = fsqrt (Fin (1 - x\<^sup>2)) in
      ebind (set2 p 0 0 (Fin (p00 cf))) (\<lambda>p.
        efold (legendre_row cf x sqrt_x) [1..<max_degree + 1] p))"

definition legendre_table :: "coeffs \<Rightarrow> real \<Rightarrow> nat \<Rightarrow> error + table" where
  "legendre_table cf x max_degree =
     legendre_fill cf x max_degree (full (max_degree + 1) (max_degree + 1) NaN)"

definition unnormalized :: coeffs where
  "unnormalized = \<lparr>
     a_nm = (\<lambda>n m. (2 * real n - 1) / (real n - real m)),
     b_nm = (\<lambda>n m. - (real n + real m - 1) / (real n - real m)),
     c_nm = (\<lambda>n. 2 * real n - 1),
     d_nm = (\<lambda>n. 2 * real n - 1),
     p00 = 1 \<rparr>"

definition schmidt :: coeffs where
  "schmidt = \<lparr>
     a_nm = (\<lambda>n m. (2 * real n - 1) / sqrt ((real n + real m) * (real n - real m))),
     b_nm = (\<lambda>n m. - sqrt ((real n + real m - 1) * (real n - real m - 1)
                            / ((real n + real m) * (real n - real m)))),
     c_nm = (\<lambda>n. sqrt (2 * real n - 1)),
     d_nm = (\<lambda>n. if n = 1 then 1 else sqrt (1 - 1 / (2 * real n))),
     p00 = 1 \<rparr>"

definition fully_normalized :: coeffs where
  "fully_normalized = \<lparr>
     a_nm = (\<lambda>n m. sqrt ((2 * real n + 1) * (2 * real n - 1)
                          / ((real n + real m) * (real n - real m)))),
     b_nm = (\<lambda>n m. - sqrt ((real n + real m - 1) * (real n - real m - 1) * (2 * real n + 1)
                            / ((real n + real m) * (real n - real m) * (2 * real n - 3)))),
     c_nm = (\<lambda>n. sqrt (2 * real n + 1)),
     d_nm = (\<lambda>n. sqrt (1 + 1 / (2 * real n))),
     p00 = sqrt 0.5 \<rparr>"

definition assoc_legendre :: "real \<Rightarrow> nat \<Rightarrow> error + table" where
  "assoc_legendre x max_degree = legendre_table unnormalized x max_degree"

definition assoc_legendre_schmidt :: "real \<Rightarrow> nat \<Rightarrow> error + table" where
  "assoc_legendre_schmidt x max_degree = legendre_table schmidt x max_degree"

definition assoc_legendre_full :: "real \<Rightarrow> nat \<Rightarrow> error + table" where
  "assoc_legendre_full x max_degree = legendre_table fully_normalized x max_degree"

text \<open>
  \<^verbatim>\<open>assoc_legendre_deriv\<close>. \<^verbatim>\<open>p.shape[0]\<close> is the number of rows of \<open>p\<close>; the
  argument \<open>x\<close> is not used by the source.
\<close>

definition deriv_inner :: "table \<Rightarrow> nat \<Rightarrow> nat \<Rightarrow> table \<Rightarrow> error + table" where
  "deriv_inner p n m p_deriv =
     ebind (get2 p n (m - 1)) (\<lambda>q1.
     ebind (get2 p n (m + 1)) (\<lambda>q2.
       set2 p_deriv n m
         (fmul (Fin 0.5) (fsub (fmul (Fin ((real n + real m) * (real n - real m + 1))) q1) q2))))"

definition deriv_row :: "table \<Rightarrow> nat \<Rightarrow> table \<Rightarrow> error + table" where
  "deriv_row p n p_deriv =
     ebind (get2 p n 1) (\<lambda>q.
     ebind (set2 p_deriv n 0 (fneg q)) (\<lambda>p_deriv.
     ebind (efold (deriv_inner p n) [1..<n] p_deriv) (\<lambda>p_deriv.
     ebind (get2 p n (n - 1)) (\<lambda>q.
       set2 p_deriv n n (fmul (Fin (real n)) q)))))"

definition assoc_legendre_deriv :: "real \<Rightarrow> table \<Rightarrow> error + table" where
  "assoc_legendre_deriv x p =
     (let max_degree = length p + 1 in
      ebind (set2 (full (max_degree + 1) (max_degree + 1) NaN) 0 0 (Fin 0)) (\<lambda>p_deriv.
        efold (deriv_row p) [1..<max_degree + 1] p_deriv))"

section \<open>Point masses (\<^verbatim>\<open>forward/point_mass.py\<close>)\<close>

text \<open>
  Division is the division of the compiled kernels (\<^verbatim>\<open>@jit(nopython=True)\<close>, default
  error model): a zero divisor raises \<open>ZeroDivisionError\<close>. \<open>fpow a y\<close> is
  \<^verbatim>\<open>a ** y\<close> for the non-integer exponent \<open>3 / 2\<close> of the kernels: \<open>NaN\<close> for a
  negative base, \<open>0\<close> for the base \<open>0\<close>.
\<close>

definition fdiv :: "fl \<Rightarrow> fl \<Rightarrow> error + fl" where
  "fdiv a b =
     (case b of
        NaN \<Rightarrow> Inr NaN
      | Fin d \<Rightarrow> if d = 0 then Inl ZeroDivisionError
                 else (case a of NaN \<Rightarrow> Inr NaN | Fin n \<Rightarrow> Inr (Fin (n / d))))"

definition fpow :: "fl \<Rightarrow> real \<Rightarrow> fl" where
  "fpow a y = (case a of NaN \<Rightarrow> NaN | Fin b \<Rightarrow> if b < 0 then NaN else Fin (b powr y))"

definition get1 :: "'a list \<Rightarrow> nat \<Rightarrow> error + 'a" where
  "get1 xs i = (if i < length xs then Inr (xs ! i) else Inl IndexError)"

definition set1 :: "'a list \<Rightarrow> nat \<Rightarrow> 'a \<Rightarrow> error + 'a list" where
  "set1 xs i v = (if i < length xs then Inr (xs[i := v]) else Inl IndexError)"

text \<open>
  A coordinate set is the triple of its three flattened arrays: \<^verbatim>\<open>easting\<close>,
  \<^verbatim>\<open>northing\<close>, \<^verbatim>\<open>down\<close>, or \<^verbatim>\<open>longitude\<close>, \<^verbatim>\<open>latitude\<close>, \<^verbatim>\<open>radius\<close>.
\<close>

type_synonym coords = "real list \<times> real list \<times> real list"

type_synonym kernel_cartesian = "real \<Rightarrow> real \<Rightarrow> real \<Rightarrow> real \<Rightarrow> real \<Rightarrow> real \<Rightarrow> error + fl"

type_synonym kernel_spherical =
  "real \<Rightarrow> real \<Rightarrow> real \<Rightarrow> real \<Rightarrow> real \<Rightarrow> real \<Rightarrow> real \<Rightarrow> real \<Rightarrow> error + fl"

fun distance_cartesian_sq :: "real \<times> real \<times> real \<Rightarrow> real \<times> real \<times> real \<Rightarrow> real" where
  "distance_cartesian_sq (easting, northing, down) (easting_p, northing_p, down_p) =
     (easting - easting_p)\<^sup>2 + (northing - northing_p)\<^sup>2 + (down - down_p)\<^sup>2"

definition distance_cartesian :: "real \<times> real \<times> real \<Rightarrow> real \<times> real \<times> real \<Rightarrow> fl" where
  "distance_cartesian point_a point_b = fsqrt (Fin (distance_cartesian_sq point_a point_b))"

definition kernel_potential_cartesian :: kernel_cartesian where
  "kernel_potential_cartesian easting northing down easting_p northing_p down_p =
     fdiv (Fin 1) (distance_cartesian (easting, northing, down) (easting_p, northing_p, down_p))"

definition kernel_g_z :: kernel_cartesian where
  "kernel_g_z easting northing down easting_p northing_p down_p =
     (let distance_sq =
            distance_cartesian_sq (easting, northing, down) (easting_p, northing_p, down_p)
      in fdiv (Fin (down_p - down)) (fpow (Fin distance_sq) (3 / 2)))"

definition kernel_potential_spherical :: kernel_spherical where
  "kernel_potential_spherical longitude cosphi sinphi radius longitude_p cosphi_p sinphi_p radius_p =
     (let coslambda = cos (longitude_p - longitude);
          cospsi = sinphi_p * sinphi + cosphi_p * cosphi * coslambda;
          distance_sq = (radius - radius_p)\<^sup>2 + 2 * radius * radius_p * (1 - cospsi)
      in fdiv (Fin 1) (fsqrt (Fin distance_sq)))"

definition kernel_g_r :: kernel_spherical where
  "kernel_g_r longitude cosphi sinphi radius longitude_p cosphi_p sinphi_p radius_p =
     (let coslambda = cos (longitude_p - longitude);
          cospsi = sinphi_p * sinphi + cosphi_p * cosphi * coslambda;
          distance_sq = (radius - radius_p)\<^sup>2 + 2 * radius * radius_p * (1 - cospsi);
          delta_z = radius_p * cospsi - radius
      in fdiv (Fin delta_z) (fpow (Fin distance_sq) (3 / 2)))"

text \<open>
  \<^verbatim>\<open>out[l] += masses[m] * kernel(...)\<close>: Python reads \<^verbatim>\<open>out[l]\<close>, then
  \<^verbatim>\<open>masses[m]\<close>, then evaluates the call (its arguments, then the kernel), then
  stores. \<open>accumulate\<close> is that statement with the call as the last argument.
\<close>

definition accumulate :: "fl list \<Rightarrow> real list \<Rightarrow> nat \<Rightarrow> nat \<Rightarrow> error + fl \<Rightarrow> error + fl list" where
  "accumulate out masses l m call =
     ebind (get1 out l) (\<lambda>acc.
     ebind (get1 masses m) (\<lambda>mass.
     ebind call (\<lambda>k.
       set1 out l (fadd acc (fmul (Fin mass) k)))))"

fun call_cartesian :: "kernel_cartesian \<Rightarrow> coords \<Rightarrow> coords \<Rightarrow> nat \<Rightarrow> nat \<Rightarrow> error + fl" where
  "call_cartesian kern (easting, northing, down) (easting_p, northing_p, down_p) l m =
     ebind (get1 easting l) (\<lambda>e.
     ebind (get1 northing l) (\<lambda>n.
     ebind (get1 down l) (\<lambda>d.
     ebind (get1 easting_p m) (\<lambda>e_p.
     ebind (get1 northing_p m) (\<lambda>n_p.
     ebind (get1 down_p m) (\<lambda>d_p.
       kern e n d e_p n_p d_p))))))"

definition jit_point_mass_cartesian ::
  "coords \<Rightarrow> coords \<Rightarrow> real list \<Rightarrow> fl list \<Rightarrow> kernel_cartesian \<Rightarrow> error + fl list" where
  "jit_point_mass_cartesian coordinates points masses out kern =
     efold (\<lambda>l. efold (\<lambda>m out. accumulate out masses l m
                                  (call_cartesian kern coordinates points l m))
                       [0..<length (fst points)])
           [0..<length (fst coordinates)] out"

definition radians :: "real \<Rightarrow> real" where
  "radians deg = deg * pi / 180"

text \<open>
  The argument arrays of the spherical kernels, as \<^verbatim>\<open>jit_point_mass_spherical\<close>
  prepares them: \<^verbatim>\<open>longitude\<close> in radians, \<^verbatim>\<open>cosphi\<close>, \<^verbatim>\<open>sinphi\<close>, \<^verbatim>\<open>radius\<close>.
\<close>

fun call_spherical ::
  "kernel_spherical \<Rightarrow> real list \<times> real list \<times> real list \<times> real list \<Rightarrow>
   real list \<times> real list \<times> real list \<times> real list \<Rightarrow> nat \<Rightarrow> nat \<Rightarrow> error + fl" where
  "call_spherical kern (longitude, cosphi, sinphi, radius)
       (longitude_p, cosphi_p, sinphi_p, radius_p) l m =
     ebind (get1 longitude l) (\<lambda>lon.
     ebind (get1 cosphi l) (\<lambda>c.
     ebind (get1 sinphi l) (\<lambda>s.
     ebind (get1 radius l) (\<lambda>r.
     ebind (get1 longitude_p m) (\<lambda>lon_p.
     ebind (get1 cosphi_p m) (\<lambda>c_p.
     ebind (get1 sinphi_p m) (\<lambda>s_p.
     ebind (get1 radius_p m) (\<lambda>r_p.
       kern lon c s r lon_p c_p s_p r_p))))))))"

fun prepare_spherical :: "coords \<Rightarrow> real list \<times> real list \<times> real list \<times> real list" where
  "prepare_spherical (longitude, latitude, radius) =
     (let longitude = map radians longitude;
          latitude = map radians latitude;
          cosphi = map cos latitude;
          sinphi = map sin latitude
      in (longitude, cosphi, sinphi, radius))"

definition jit_point_mass_spherical ::
  "coords \<Rightarrow> coords \<Rightarrow> real list \<Rightarrow> fl list \<Rightarrow> kernel_spherical \<Rightarrow> error + fl list" where
  "jit_point_mass_spherical coordinates points masses out kern =
     (let obs = prepare_spherical coordinates;
          src = prepare_spherical points
      in efold (\<lambda>l. efold (\<lambda>m out. accumulate out masses l m (call_spherical kern obs src l m))
                          [0..<length (fst src)])
               [0..<length (fst obs)] out)"

text \<open>
  The dictionaries \<^verbatim>\<open>kernels["cartesian"]\<close> and \<^verbatim>\<open>kernels["spherical"]\<close>, and the
  call \<^verbatim>\<open>dispatchers[coordinate_system](..., kernels[coordinate_system][field])\<close>;
  a missing key is Python's \<open>KeyError\<close>.
\<close>

definition kernels_cartesian :: "string \<rightharpoonup> kernel_cartesian" where
  "kernels_cartesian = [''potential'' \<mapsto> kernel_potential_cartesian, ''g_z'' \<mapsto> kernel_g_z]"

definition kernels_spherical :: "string \<rightharpoonup> kernel_spherical" where
  "kernels_spherical = [''potential'' \<mapsto> kernel_potential_spherical, ''g_r'' \<mapsto> kernel_g_r]"

definition field_in_kernels :: "string \<Rightarrow> string \<Rightarrow> bool" where
  "field_in_kernels coordinate_system field =
     (if coordinate_system = ''cartesian'' then field \<in> dom kernels_cartesian
      else field \<in> dom kernels_spherical)"

definition dispatch ::
  "string \<Rightarrow> string \<Rightarrow> coords \<Rightarrow> coords \<Rightarrow> real list \<Rightarrow> fl list \<Rightarrow> error + fl list" where
  "dispatch coordinate_system field coordinates points masses result =
     (if coordinate_system = ''cartesian'' then
        (case kernels_cartesian field of
           None \<Rightarrow> Inl KeyError
         | Some kern \<Rightarrow> jit_point_mass_cartesian coordinates points masses result kern)
      else if coordinate_system = ''spherical'' then
        (case kernels_spherical field of
           None \<Rightarrow> Inl KeyError
         | Some kern \<Rightarrow> jit_point_mass_spherical coordinates points masses result kern)
      else Inl KeyError)"

text \<open>
  \<^verbatim>\<open>np.broadcast(*coordinates[:3]).size\<close> for three one-dimensional arrays, by NumPy's
  broadcasting rule: all lengths other than 1 must agree; otherwise \<open>ValueError\<close>.
\<close>

fun broadcast_size :: "coords \<Rightarrow> error + nat" where
  "broadcast_size (a, b, c) =
     (let sizes = [length a, length b, length c];
          others = filter (\<lambda>n. n \<noteq> 1) sizes;
          common = (case others of [] \<Rightarrow> 1 | n # _ \<Rightarrow> n)
      in if list_all (\<lambda>n. n = common) others then Inr common
         else Inl (ValueError ''shape mismatch: objects cannot be broadcast to a single shape''))"

text \<open>
  \<^verbatim>\<open>point_mass_gravity\<close>, for flat coordinate arrays (the final \<^verbatim>\<open>reshape\<close> to
  the broadcast shape is then the identity). \<^verbatim>\<open>GRAVITATIONAL_CONST\<close> is imported from
  a module that is not part of the sources at hand and is the parameter \<open>G\<close>.
\<close>

definition point_mass_gravity ::
  "real \<Rightarrow> coords \<Rightarrow> coords \<Rightarrow> real list \<Rightarrow> string \<Rightarrow> string \<Rightarrow> error + fl list" where
  "point_mass_gravity G coordinates points masses field coordinate_system =
     (if coordinate_system \<notin> {''cartesian'', ''spherical''} then
        Inl (ValueError (''Coordinate system '' @ coordinate_system @ '' not recognized''))
      else if \<not> field_in_kernels coordinate_system field then
        Inl (ValueError (''Gravity field '' @ field @ '' not recognized''))
      else
        ebind (broadcast_size coordinates) (\<lambda>n_out.
        ebind (dispatch coordinate_system field coordinates points masses
                 (replicate n_out (Fin 0))) (\<lambda>result.
          let result = map (\<lambda>r. fmul r (Fin G)) result;
              result = (if field \<in> {''g_r'', ''g_z''}
                        then map (\<lambda>r. fmul r (Fin 100000)) result else result)
          in Inr result)))"

section \<open>Layers of prisms (\<^verbatim>\<open>_forward/prism_layer.py\<close>)\<close>





text \<open>
  The arrays that \<^verbatim>\<open>_gravity_coarser\<close> receives, and the kernel \<^verbatim>\<open>forward_func\<close>
  with its ten arguments \<^verbatim>\<open>easting, northing, upward, west, east, south, north,
  bottom, top, density\<close>; the kernel is a parameter and is taken to return a value.
\<close>

record prism_grid =
  prisms_easting :: "real list"
  prisms_northing :: "real list"
  prisms_bottom :: table
  prisms_top :: table
  prisms_densities :: table

type_synonym forward_func =
  "real \<Rightarrow> real \<Rightarrow> real \<Rightarrow> real \<Rightarrow> real \<Rightarrow> real \<Rightarrow> real \<Rightarrow> fl \<Rightarrow> fl \<Rightarrow> fl \<Rightarrow> fl"

text \<open>
  \<^verbatim>\<open>int(a // b)\<close> for floats: the floor of the quotient; a zero divisor raises
  \<open>ZeroDivisionError\<close>.
\<close>

definition floordiv :: "real \<Rightarrow> real \<Rightarrow> error + int" where
  "floordiv a b = (if b = 0 then Inl ZeroDivisionError else Inr \<lfloor>a / b\<rfloor>)"

text \<open>
  The bounding indices \<^verbatim>\<open>i_min, i_max, j_min, j_max\<close> of the finer box. Both
  coordinate arrays have at least two entries where this is evaluated.
\<close>

definition near_window ::
  "real \<Rightarrow> real \<Rightarrow> real list \<Rightarrow> real list \<Rightarrow> real \<Rightarrow> real \<Rightarrow> real \<Rightarrow> nat \<Rightarrow>
   error + int \<times> int \<times> int \<times> int" where
  "near_window easting northing p_easting p_northing prism_size_easting prism_size_northing
       fine_distance factor =
     (let spacing_easting = prism_size_easting * real factor;
          spacing_northing = prism_size_northing * real factor;
          easting_min = Min (set p_easting);
          northing_min = Min (set p_northing)
      in
      ebind (floordiv (easting - easting_min - fine_distance) spacing_easting) (\<lambda>q1.
      ebind (floordiv (easting - easting_min + fine_distance) spacing_easting) (\<lambda>q2.
      ebind (floordiv (northing - northing_min - fine_distance) spacing_northing) (\<lambda>q3.
      ebind (floordiv (northing - northing_min + fine_distance) spacing_northing) (\<lambda>q4.
        Inr (max q1 0, min (q2 + 1) (int (length p_easting)),
             max q3 0, min (q4 + 1) (int (length p_northing))))))))"

text \<open>
  The loop over the finer grid, \<^verbatim>\<open>for i in range(i_min, i_max)\<close> and
  \<^verbatim>\<open>for j in range(j_min, j_max)\<close>; the indices are never negative, since
  \<open>i_min\<close> and \<open>j_min\<close> are at least 0. \<open>fine_cell\<close> is the body of the inner loop.
\<close>

definition fine_cell ::
  "forward_func \<Rightarrow> real \<Rightarrow> real \<Rightarrow> real \<Rightarrow> prism_grid \<Rightarrow> real \<Rightarrow> real \<Rightarrow> real \<Rightarrow>
   int \<Rightarrow> int \<Rightarrow> fl \<Rightarrow> error + fl" where
  "fine_cell forward_func easting northing upward g prism_size_northing west east i j result =
     ebind (get1 (prisms_northing g) (nat j)) (\<lambda>n_j.
     let south = n_j - prism_size_northing / 2;
         north = n_j + prism_size_northing / 2
     in
     ebind (get2 (prisms_bottom g) (nat j) (nat i)) (\<lambda>bottom.
     ebind (get2 (prisms_top g) (nat j) (nat i)) (\<lambda>top'.
     ebind (get2 (prisms_densities g) (nat j) (nat i)) (\<lambda>density.
       Inr (fadd result
              (forward_func easting northing upward west east south north
                 bottom top' density))))))"

definition fine_loop ::
  "forward_func \<Rightarrow> real \<Rightarrow> real \<Rightarrow> real \<Rightarrow> prism_grid \<Rightarrow> real \<Rightarrow> real \<Rightarrow>
   int \<times> int \<times> int \<times> int \<Rightarrow> fl \<Rightarrow> error + fl" where
  "fine_loop forward_func easting northing upward g prism_size_easting prism_size_northing w result =
     (case w of (i_min, i_max, j_min, j_max) \<Rightarrow>
      efold (\<lambda>i result.
        ebind (get1 (prisms_easting g) (nat i)) (\<lambda>e_i.
        let west = e_i - prism_size_easting / 2;
            east = e_i + prism_size_easting / 2
        in efold (fine_cell forward_func easting northing upward g prism_size_northing west east i)
             [j_min..j_max - 1] result))
        [i_min..i_max - 1] result)"

text \<open>
  \<^verbatim>\<open>range(0, n, step)\<close> for \<open>step \<ge> 1\<close> (a step of 0 is not reached: the
  window computation has raised by then), the slice
  \<^verbatim>\<open>a[j : j + factor, i : i + factor]\<close>, which is cut at the array bounds, and
  \<^verbatim>\<open>np.mean\<close>, which is \<open>NaN\<close> for an empty slice. \<open>coarse_cell\<close> is the body of
  the inner loop over the coarser grid, with its two \<^verbatim>\<open>continue\<close> branches.
\<close>

definition range_step :: "nat \<Rightarrow> nat \<Rightarrow> nat list" where
  "range_step n step = map (\<lambda>k. k * step) [0..<(n + step - 1) div step]"

definition slice2 :: "table \<Rightarrow> nat \<Rightarrow> nat \<Rightarrow> nat \<Rightarrow> table" where
  "slice2 a j i factor = map (\<lambda>row. take factor (drop i row)) (take factor (drop j a))"

definition fsum :: "fl list \<Rightarrow> fl" where
  "fsum xs = foldl fadd (Fin 0) xs"

definition mean :: "table \<Rightarrow> fl" where
  "mean a =
     (let xs = concat a in
      if xs = [] then NaN
      else (case fsum xs of NaN \<Rightarrow> NaN | Fin s \<Rightarrow> Fin (s / real (length xs))))"

definition coarse_cell ::
  "forward_func \<Rightarrow> real \<Rightarrow> real \<Rightarrow> real \<Rightarrow> prism_grid \<Rightarrow> real \<Rightarrow> nat \<Rightarrow>
   int \<times> int \<times> int \<times> int \<Rightarrow> real \<Rightarrow> real \<Rightarrow> nat \<Rightarrow> nat \<Rightarrow> fl \<Rightarrow> error + fl" where
  "coarse_cell forward_func easting northing upward g prism_size_northing factor w west east
       i j result =
     (case w of (i_min, i_max, j_min, j_max) \<Rightarrow>
      if i_min \<le> int i \<and> int i < i_max \<and> j_min \<le> int j \<and> int j < j_max then Inr result
      else
        ebind (get1 (prisms_northing g) j) (\<lambda>n_j.
        let south = n_j - 0.5 * prism_size_northing;
            north = n_j + (real factor - 0.5) * prism_size_northing;
            bottom = mean (slice2 (prisms_bottom g) j i factor);
            top' = mean (slice2 (prisms_top g) j i factor);
            density = mean (slice2 (prisms_densities g) j i factor)
        in if isnan density then Inr result
           else Inr (fadd result
                  (forward_func easting northing upward west east south north
                     bottom top' density))))"

definition coarse_loop ::
  "forward_func \<Rightarrow> real \<Rightarrow> real \<Rightarrow> real \<Rightarrow> prism_grid \<Rightarrow> real \<Rightarrow> real \<Rightarrow> nat \<Rightarrow>
   int \<times> int \<times> int \<times> int \<Rightarrow> fl \<Rightarrow> error + fl" where
  "coarse_loop forward_func easting northing upward g prism_size_easting prism_size_northing
       factor w result =
     efold (\<lambda>i result.
       ebind (get1 (prisms_easting g) i) (\<lambda>e_i.
       let west = e_i - 0.5 * prism_size_easting;
           east = e_i + (real factor - 0.5) * prism_size_easting
       in efold (coarse_cell forward_func easting northing upward g prism_size_northing factor w
                   west east i)
            (range_step (length (prisms_northing g)) factor) result))
       (range_step (length (prisms_easting g)) factor) result"

text \<open>\<^verbatim>\<open>_gravity_coarser\<close>: the field at one computation point.\<close>

definition gravity_coarser_point ::
  "forward_func \<Rightarrow> real \<Rightarrow> real \<Rightarrow> real \<Rightarrow> prism_grid \<Rightarrow> real \<Rightarrow> nat \<Rightarrow> error + fl" where
  "gravity_coarser_point forward_func easting northing upward g fine_distance factor =
     ebind (get1 (prisms_easting g) 1) (\<lambda>e1.
     ebind (get1 (prisms_easting g) 0) (\<lambda>e0.
     ebind (get1 (prisms_northing g) 1) (\<lambda>n1.
     ebind (get1 (prisms_northing g) 0) (\<lambda>n0.
     let prism_size_easting = e1 - e0;
         prism_size_northing = n1 - n0
     in
     ebind (near_window easting northing (prisms_easting g) (prisms_northing g)
              prism_size_easting prism_size_northing fine_distance factor) (\<lambda>w.
     ebind (fine_loop forward_func easting northing upward g
              prism_size_easting prism_size_northing w (Fin 0)) (\<lambda>result.
       coarse_loop forward_func easting northing upward g
         prism_size_easting prism_size_northing factor w result))))))"

text \<open>
  The exact summation over all fine prisms, for comparison: the kernel at every
  prism of the grid with that prism's own extent, bottom, top and density, added up.
\<close>

definition fine_prism_value :: "forward_func \<Rightarrow> real \<Rightarrow> real \<Rightarrow> real \<Rightarrow> prism_grid \<Rightarrow> nat \<Rightarrow> nat \<Rightarrow> fl" where
  "fine_prism_value forward_func easting northing upward g i j =
     (let prism_size_easting = prisms_easting g ! 1 - prisms_easting g ! 0;
          prism_size_northing = prisms_northing g ! 1 - prisms_northing g ! 0
      in forward_func easting northing upward
           (prisms_easting g ! i - prism_size_easting / 2)
           (prisms_easting g ! i + prism_size_easting / 2)
           (prisms_northing g ! j - prism_size_northing / 2)
           (prisms_northing g ! j + prism_size_northing / 2)
           (prisms_bottom g ! j ! i) (prisms_top g ! j ! i) (prisms_densities g ! j ! i))"

definition exact_sum :: "forward_func \<Rightarrow> real \<Rightarrow> real \<Rightarrow> real \<Rightarrow> prism_grid \<Rightarrow> fl" where
  "exact_sum forward_func easting northing upward g =
     fsum (concat (map (\<lambda>i. map (\<lambda>j. fine_prism_value forward_func easting northing upward g i j)
                               [0..<length (prisms_northing g)])
                       [0..<length (prisms_easting g)]))"

section \<open>Predicates used in the statements and proofs\<close>

text \<open>
  \<open>upper_kept max_degree p0 p\<close>: \<open>p\<close> is a square table of side \<open>max_degree + 1\<close>
  that agrees with \<open>p0\<close> at every entry above the diagonal (\<open>n < m\<close>);
  \<open>upper_nan\<close>: every such entry is \<open>NaN\<close>. \<open>rows_done max_degree n k p\<close>: the
  rows below \<open>n\<close> and the first \<open>k\<close> entries of row \<open>n\<close> hold the values of the
  unnormalized functions at \<open>x = 1\<close>, which are 1 for order 0 and 0 otherwise.
\<close>

definition upper_kept :: "nat \<Rightarrow> table \<Rightarrow> table \<Rightarrow> bool" where
  "upper_kept max_degree p0 p =
     (shape p (max_degree + 1) (max_degree + 1) \<and>
      (\<forall>n m. n < m \<and> m \<le> max_degree \<longrightarrow> p ! n ! m = p0 ! n ! m))"

definition upper_nan :: "nat \<Rightarrow> table \<Rightarrow> bool" where
  "upper_nan max_degree p =
     (shape p (max_degree + 1) (max_degree + 1) \<and>
      (\<forall>n m. n < m \<and> m \<le> max_degree \<longrightarrow> p ! n ! m = NaN))"





text \<open>
  \<open>grid_ok\<close>: both coordinate arrays have at least two entries and the three
  two-dimensional arrays have the shape (northing, easting) of the grid.
\<close>

definition grid_ok :: "prism_grid \<Rightarrow> bool" where
  "grid_ok g =
     (2 \<le> length (prisms_easting g) \<and> 2 \<le> length (prisms_northing g) \<and>
      shape (prisms_bottom g) (length (prisms_northing g)) (length (prisms_easting g)) \<and>
      shape (prisms_top g) (length (prisms_northing g)) (length (prisms_easting g)) \<and>
      shape (prisms_densities g) (length (prisms_northing g)) (length (prisms_easting g)))"

text \<open>
  Example grids and kernels for concrete evaluations: a 4 by 4 grid of unit prisms of
  density 1 with centres at 0, 1, 2, 3 along each axis; a 2 by 2 grid; a kernel that
  returns the mass of the prism it is given; a kernel that returns 1 when the prism's
  horizontal extent covers the point \<open>(x, y)\<close> and 0 otherwise; a kernel that counts
  the calls.
\<close>

definition unit_grid :: prism_grid where
  "unit_grid = \<lparr>prisms_easting = [0, 1, 2, 3], prisms_northing = [0, 1, 2, 3],
     prisms_bottom = full 4 4 (Fin 0), prisms_top = full 4 4 (Fin 1),
     prisms_densities = full 4 4 (Fin 1)\<rparr>"

definition small_grid :: prism_grid where
  "small_grid = \<lparr>prisms_easting = [0, 1], prisms_northing = [0, 1],
     prisms_bottom = full 2 2 (Fin 0), prisms_top = full 2 2 (Fin 1),
     prisms_densities = [[Fin 1, Fin 2], [Fin 3, Fin 4]]\<rparr>"

definition mass_probe :: forward_func where
  "mass_probe easting northing upward west east south north bottom top' density =
     fmul density (fmul (Fin ((east - west) * (north - south))) (fsub top' bottom))"

definition covers_probe :: "real \<Rightarrow> real \<Rightarrow> forward_func" where
  "covers_probe x y easting northing upward west east south north bottom top' density =
     (if west \<le> x \<and> x \<le> east \<and> south \<le> y \<and> y \<le> north then Fin 1 else Fin 0)"

definition count_probe :: forward_func where
  "count_probe easting northing upward west east south north bottom top' density = Fin 1"

text \<open>
  The raw pairwise sum at one computation point, for the statements about
  \<^verbatim>\<open>point_mass_gravity\<close>: \<open>pair_call\<close> is the kernel call that the dispatcher of the
  coordinate system makes for the computation point \<open>l\<close> and the source \<open>m\<close>;
  \<open>pair_terms\<close> pairs each mass with its call; \<open>acc_terms ts a\<close> adds
  \<open>mass * kernel\<close> to \<open>a\<close> term by term and stops at the first call that raises.
  \<open>coords_ok\<close>: the three arrays of a coordinate set have one length;
  \<open>append_coords\<close>: two sets of sources put together.
\<close>

definition acc_terms :: "(real \<times> (error + fl)) list \<Rightarrow> fl \<Rightarrow> error + fl" where
  "acc_terms ts a = efold (\<lambda>t a. ebind (snd t) (\<lambda>k. Inr (fadd a (fmul (Fin (fst t)) k)))) ts a"

definition pair_terms :: "real list \<Rightarrow> (nat \<Rightarrow> error + fl) \<Rightarrow> nat \<Rightarrow> (real \<times> (error + fl)) list" where
  "pair_terms masses call M = map (\<lambda>m. (masses ! m, call m)) [0..<M]"

definition coords_ok :: "coords \<Rightarrow> bool" where
  "coords_ok c = (case c of (a, b, d) \<Rightarrow> length b = length a \<and> length d = length a)"

fun append_coords :: "coords \<Rightarrow> coords \<Rightarrow> coords" where
  "append_coords (a, b, c) (a', b', c') = (a @ a', b @ b', c @ c')"

definition pair_call :: "string \<Rightarrow> string \<Rightarrow> coords \<Rightarrow> coords \<Rightarrow> nat \<Rightarrow> nat \<Rightarrow> error + fl" where
  "pair_call coordinate_system field coordinates points l m =
     (if coordinate_system = ''cartesian'' then
        (case kernels_cartesian field of
           None \<Rightarrow> Inl KeyError
         | Some kern \<Rightarrow> call_cartesian kern coordinates points l m)
      else
        (case kernels_spherical field of
           None \<Rightarrow> Inl KeyError
         | Some kern \<Rightarrow>
             call_spherical kern (prepare_spherical coordinates) (prepare_spherical points) l m))"

section \<open>Loops and arrays: basic facts\<close>

lemma ebind_Inr [simp]: "ebind (Inr v) f = f v"
  by (simp add: ebind_def)

lemma ebind_Inl [simp]: "ebind (Inl e) f = Inl e"
  by (simp add: ebind_def)

lemma efold_append: "efold f (xs @ ys) s = ebind (efold f xs s) (efold f ys)"
  by (induction xs arbitrary: s) (auto simp: ebind_def split: sum.splits)

lemma efold_inv:
  assumes "I s" and "\<And>x s. x \<in> set xs \<Longrightarrow> I s \<Longrightarrow> \<exists>s'. f x s = Inr s' \<and> I s'"
  shows "\<exists>s'. efold f xs s = Inr s' \<and> I s'"
  using assms
proof (induction xs arbitrary: s)
  case Nil
  then show ?case by simp
next
  case (Cons x xs)
  from Cons.prems obtain s1 where s1: "f x s = Inr s1" "I s1" by (meson list.set_intros(1))
  have "\<exists>s'. efold f xs s1 = Inr s' \<and> I s'"
    by (rule Cons.IH [OF s1(2)]) (use Cons.prems(2) in auto)
  with s1 show ?case by simp
qed


lemma shape_full: "shape (full r c v) r c"
  by (simp add: shape_def full_def list_all_iff)

lemma shape_row: "shape p r c \<Longrightarrow> n < r \<Longrightarrow> length (p ! n) = c"
  by (auto simp: shape_def list_all_length)

lemma get2_shape: "shape p r c \<Longrightarrow> n < r \<Longrightarrow> m < c \<Longrightarrow> get2 p n m = Inr (p ! n ! m)"
  by (auto simp: get2_def shape_def list_all_length)

lemma set2_shape:
  "shape p r c \<Longrightarrow> n < r \<Longrightarrow> m < c \<Longrightarrow> set2 p n m v = Inr (p[n := (p ! n)[m := v]])"
  by (auto simp: set2_def shape_def list_all_length)

lemma shape_update: "shape p r c \<Longrightarrow> shape (p[n := (p ! n)[m := v]]) r c"
  by (cases "n < length p") (auto simp: shape_def list_all_length nth_list_update)

lemma nth_update2:
  "shape p r c \<Longrightarrow> n < r \<Longrightarrow> m < c \<Longrightarrow> n' < r \<Longrightarrow>
   p[n := (p ! n)[m := v]] ! n' ! m' = (if n' = n \<and> m' = m then v else p ! n' ! m')"
  by (auto simp: shape_def list_all_length nth_list_update)

lemma nth_full: "n < r \<Longrightarrow> m < c \<Longrightarrow> full r c v ! n ! m = v"
  by (simp add: full_def)

lemma get1_in: "i < length xs \<Longrightarrow> get1 xs i = Inr (xs ! i)"
  by (simp add: get1_def)

section \<open>Legendre tables: the entries above the diagonal\<close>

lemma kept_read: "upper_kept md p0 p \<Longrightarrow> n \<le> md \<Longrightarrow> m \<le> md \<Longrightarrow> get2 p n m = Inr (p ! n ! m)"
  using get2_shape [of p "md + 1" "md + 1" n m] by (simp add: upper_kept_def)

lemma kept_write:
  assumes "upper_kept md p0 p" "n \<le> md" "m \<le> n"
  shows "\<exists>p'. set2 p n m v = Inr p' \<and> upper_kept md p0 p'"
proof -
  from assms have sh: "shape p (md + 1) (md + 1)" and n: "n < md + 1" and m: "m < md + 1"
    by (auto simp: upper_kept_def)
  have "upper_kept md p0 (p[n := (p ! n)[m := v]])"
    unfolding upper_kept_def
  proof (intro conjI allI impI)
    show "shape (p[n := (p ! n)[m := v]]) (md + 1) (md + 1)" by (rule shape_update [OF sh])
  next
    fix n' m' assume a: "n' < m' \<and> m' \<le> md"
    then have "n' < md + 1" by simp
    from nth_update2 [OF sh n m this, of v m'] a assms(3)
    have "p[n := (p ! n)[m := v]] ! n' ! m' = p ! n' ! m'" by auto
    with assms(1) a show "p[n := (p ! n)[m := v]] ! n' ! m' = p0 ! n' ! m'"
      by (simp add: upper_kept_def)
  qed
  with set2_shape [OF sh n m] show ?thesis by simp
qed

lemma inner_kept:
  assumes "upper_kept md p0 p" "n \<le> md" "m < n - 1"
  shows "\<exists>p'. legendre_inner cf x n m p = Inr p' \<and> upper_kept md p0 p'"
proof -
  from assms have "get2 p (n - 1) m = Inr (p ! (n - 1) ! m)" "get2 p (n - 2) m = Inr (p ! (n - 2) ! m)"
    by (auto intro!: kept_read)
  moreover from assms have "m \<le> n" by simp
  ultimately show ?thesis
    using kept_write [OF assms(1,2)] by (simp add: legendre_inner_def)
qed

lemma row_kept:
  assumes "upper_kept md p0 p" "n \<le> md"
  shows "\<exists>p'. legendre_row cf x sqrt_x n p = Inr p' \<and> upper_kept md p0 p'"
proof -
  have "\<exists>p1. efold (legendre_inner cf x n) [0..<n - 1] p = Inr p1 \<and> upper_kept md p0 p1"
    by (rule efold_inv [where I = "upper_kept md p0"]) (use assms in \<open>auto intro: inner_kept\<close>)
  then obtain p1 where p1: "efold (legendre_inner cf x n) [0..<n - 1] p = Inr p1" "upper_kept md p0 p1"
    by blast
  from assms(2) have r1: "get2 p1 (n - 1) (n - 1) = Inr (p1 ! (n - 1) ! (n - 1))"
    by (intro kept_read [OF p1(2)]) auto
  from kept_write [OF p1(2) assms(2), of "n - 1"]
  obtain p2 where p2: "set2 p1 n (n - 1) (fmul (fmul (Fin (c_nm cf n)) (Fin x)) (p1 ! (n - 1) ! (n - 1))) = Inr p2"
    "upper_kept md p0 p2" by (metis diff_le_self)
  from assms(2) have r2: "get2 p2 (n - 1) (n - 1) = Inr (p2 ! (n - 1) ! (n - 1))"
    by (intro kept_read [OF p2(2)]) auto
  from kept_write [OF p2(2) assms(2), of n]
  obtain p3 where "set2 p2 n n (fmul (fmul (Fin (d_nm cf n)) sqrt_x) (p2 ! (n - 1) ! (n - 1))) = Inr p3"
    "upper_kept md p0 p3" by blast
  with p1 r1 p2 r2 show ?thesis by (simp add: legendre_row_def)
qed

lemma fill_kept:
  assumes "shape p0 (md + 1) (md + 1)"
  shows "\<exists>p. legendre_fill cf x md p0 = Inr p \<and> upper_kept md p0 p"
proof -
  from assms have k0: "upper_kept md p0 p0" by (simp add: upper_kept_def)
  from kept_write [OF k0, of 0 0] obtain p1 where p1: "set2 p0 0 0 (Fin (p00 cf)) = Inr p1" "upper_kept md p0 p1"
    by auto
  have "\<exists>p. efold (legendre_row cf x (fsqrt (Fin (1 - x\<^sup>2)))) [1..<md + 1] p1 = Inr p \<and> upper_kept md p0 p"
    by (rule efold_inv [where I = "upper_kept md p0"]) (use p1 in \<open>auto intro: row_kept\<close>)
  with p1 show ?thesis by (simp add: legendre_fill_def Let_def)
qed

lemma table_upper_nan: "\<exists>p. legendre_table cf x md = Inr p \<and> upper_nan md p"
proof -
  from fill_kept [OF shape_full, where cf = cf and x = x and md = md]
  obtain p where p: "legendre_fill cf x md (full (md + 1) (md + 1) NaN) = Inr p"
    "upper_kept md (full (md + 1) (md + 1) NaN) p" by blast
  then have "upper_nan md p"
    by (auto simp: upper_kept_def upper_nan_def nth_full)
  with p show ?thesis by (simp add: legendre_table_def)
qed

text \<open>
  Claim C9. For every argument \<open>x\<close> (in particular for \<open>x\<close> in \<open>[-1, 1]\<close>) and every
  \<open>max_degree\<close>, each of the three constructors returns a table with
  \<open>max_degree + 1\<close> rows and columns whose entries with \<open>m > n\<close> are all \<open>NaN\<close>;
  and the construction never overwrites such an entry: run on any allocated table of
  that shape, with any coefficients, it returns it with the entries above the diagonal
  unchanged.
\<close>

theorem legendre_upper_triangle_nan:
  "(\<exists>p. assoc_legendre x max_degree = Inr p \<and> upper_nan max_degree p) \<and>
   (\<exists>p. assoc_legendre_schmidt x max_degree = Inr p \<and> upper_nan max_degree p) \<and>
   (\<exists>p. assoc_legendre_full x max_degree = Inr p \<and> upper_nan max_degree p) \<and>
   (shape p0 (max_degree + 1) (max_degree + 1) \<longrightarrow>
      (\<exists>p. legendre_fill cf x max_degree p0 = Inr p \<and> upper_kept max_degree p0 p))"
  using table_upper_nan fill_kept
  by (simp add: assoc_legendre_def assoc_legendre_schmidt_def assoc_legendre_full_def)

theorem legendre_upper_triangle_nan_witness:
  "(\<exists>p. assoc_legendre 0 1 = Inr p \<and> length p = 2 \<and> p ! 0 ! 1 = NaN) \<and>
   (\<exists>p. assoc_legendre_schmidt 0 1 = Inr p \<and> length p = 2 \<and> p ! 0 ! 1 = NaN) \<and>
   (\<exists>p. assoc_legendre_full 0 1 = Inr p \<and> length p = 2 \<and> p ! 0 ! 1 = NaN) \<and>
   (\<exists>p. legendre_fill schmidt 0 1 [[Fin 7, Fin 8], [Fin 9, Fin 10]] = Inr p \<and> p ! 0 ! 1 = Fin 8)"
  using legendre_upper_triangle_nan [of 0 1 "[[Fin 7, Fin 8], [Fin 9, Fin 10]]" schmidt]
  by (auto simp: upper_nan_def upper_kept_def shape_def)

section \<open>The unnormalized table at \<open>x = 1\<close>\<close>










section \<open>The derivative table\<close>

lemma deriv_inner_ok:
  assumes "shape p k k" "shape pd (k + 2) (k + 2)" "n < k" "1 \<le> m" "m < n"
  shows "\<exists>pd'. deriv_inner p n m pd = Inr pd' \<and> shape pd' (k + 2) (k + 2)"
proof -
  from assms have "get2 p n (m - 1) = Inr (p ! n ! (m - 1))" "get2 p n (m + 1) = Inr (p ! n ! (m + 1))"
    by (auto intro!: get2_shape [OF assms(1)])
  moreover from assms have "n < k + 2" "m < k + 2" by auto
  ultimately show ?thesis
    using set2_shape [OF assms(2)] shape_update [OF assms(2)]
    by (simp add: deriv_inner_def)
qed

lemma deriv_row_ok:
  assumes "shape p k k" "shape pd (k + 2) (k + 2)" "1 \<le> n" "n < k"
  shows "\<exists>pd'. deriv_row p n pd = Inr pd' \<and> shape pd' (k + 2) (k + 2)"
proof -
  from assms have r1: "get2 p n 1 = Inr (p ! n ! 1)"
    by (auto intro!: get2_shape [OF assms(1)])
  from assms have "n < k + 2" "0 < k + 2" by auto
  from set2_shape [OF assms(2) this] shape_update [OF assms(2)]
  obtain pd1 where pd1: "set2 pd n 0 (fneg (p ! n ! 1)) = Inr pd1" "shape pd1 (k + 2) (k + 2)"
    by blast
  have "\<exists>pd2. efold (deriv_inner p n) [1..<n] pd1 = Inr pd2 \<and> shape pd2 (k + 2) (k + 2)"
  proof (rule efold_inv [where I = "\<lambda>t. shape t (k + 2) (k + 2)"])
    show "shape pd1 (k + 2) (k + 2)" by fact
  next
    fix m s assume "m \<in> set [1..<n]" "shape s (k + 2) (k + 2)"
    then show "\<exists>s'. deriv_inner p n m s = Inr s' \<and> shape s' (k + 2) (k + 2)"
      by (intro deriv_inner_ok [OF assms(1)]) (use assms in auto)
  qed
  then obtain pd2 where pd2: "efold (deriv_inner p n) [1..<n] pd1 = Inr pd2" "shape pd2 (k + 2) (k + 2)"
    by blast
  from assms have r2: "get2 p n (n - 1) = Inr (p ! n ! (n - 1))"
    by (auto intro!: get2_shape [OF assms(1)])
  from assms have "n < k + 2" by auto
  from set2_shape [OF pd2(2) this this] shape_update [OF pd2(2)]
  have "\<exists>pd3. set2 pd2 n n (fmul (Fin (real n)) (p ! n ! (n - 1))) = Inr pd3 \<and> shape pd3 (k + 2) (k + 2)"
    by blast
  with r1 pd1 pd2 r2 show ?thesis by (simp add: deriv_row_def)
qed

lemma deriv_row_fails: "length p = k \<Longrightarrow> deriv_row p k pd = Inl IndexError"
  by (simp add: deriv_row_def get2_def)

text \<open>
  Claim C3 says that the derivative operation returns a table of the shape of its
  input, reading only entries of the input that exist. The code takes
  \<^verbatim>\<open>max_degree = p.shape[0] + 1\<close> where the shape gives \<^verbatim>\<open>p.shape[0] - 1\<close>, so the
  loop runs two rows past the input: on every square table with
  \<open>max_degree + 1\<close> rows and columns the read \<^verbatim>\<open>p[n, 1]\<close> at the row
  \<open>n = max_degree + 1\<close> is out of range, and no table is returned.
\<close>

theorem assoc_legendre_deriv_index_error:
  assumes "shape p (max_degree + 1) (max_degree + 1)"
  shows "assoc_legendre_deriv x p = Inl IndexError"
proof -
  define k where "k = max_degree + 1"
  with assms have sh: "shape p k k" and len: "length p = k" and k: "1 \<le> k"
    by (auto simp: shape_def)
  have sh0: "shape (full (k + 2) (k + 2) NaN) (k + 2) (k + 2)" by (rule shape_full)
  from set2_shape [OF sh0, of 0 0 "Fin 0"] shape_update [OF sh0]
  obtain pd1 where pd1: "set2 (full (k + 2) (k + 2) NaN) 0 0 (Fin 0) = Inr pd1" "shape pd1 (k + 2) (k + 2)"
    by auto
  have "\<exists>pd2. efold (deriv_row p) [1..<k] pd1 = Inr pd2 \<and> shape pd2 (k + 2) (k + 2)"
  proof (rule efold_inv [where I = "\<lambda>t. shape t (k + 2) (k + 2)"])
    show "shape pd1 (k + 2) (k + 2)" by fact
  next
    fix n s assume "n \<in> set [1..<k]" "shape s (k + 2) (k + 2)"
    then show "\<exists>s'. deriv_row p n s = Inr s' \<and> shape s' (k + 2) (k + 2)"
      by (intro deriv_row_ok [OF sh]) auto
  qed
  then obtain pd2 where pd2: "efold (deriv_row p) [1..<k] pd1 = Inr pd2" by blast
  from k have "[1..<k + 2] = [1..<k] @ [k..<k + 2]"
    using upt_add_eq_append [of 1 k 2] by simp
  then have split: "[1..<k + 2] = [1..<k] @ k # [Suc k..<k + 2]"
    by (simp add: upt_conv_Cons)
  have "efold (deriv_row p) [1..<k + 2] pd1 = Inl IndexError"
    by (simp only: split efold_append pd2 ebind_Inr efold.simps deriv_row_fails [OF len] ebind_Inl)
  with pd1 len show ?thesis by (simp add: assoc_legendre_deriv_def Let_def)
qed

theorem assoc_legendre_deriv_index_error_witness:
  "shape [[Fin 1, NaN], [Fin 1, Fin 0]] (1 + 1) (1 + 1) \<and>
   assoc_legendre_deriv 1 [[Fin 1, NaN], [Fin 1, Fin 0]] = Inl IndexError"
  using assoc_legendre_deriv_index_error [of "[[Fin 1, NaN], [Fin 1, Fin 0]]" 1 1]
  by (simp add: shape_def)

lemma assoc_legendre_1_1: "assoc_legendre 1 1 = Inr [[Fin 1, NaN], [Fin 1, Fin 0]]"
  by (simp add: assoc_legendre_def legendre_table_def legendre_fill_def legendre_row_def
      full_def set2_def get2_def unnormalized_def)

section \<open>The all-pairs loop\<close>

lemma ebind_return: "ebind r Inr = r"
  by (cases r) simp_all

lemma efold_snoc: "efold f (xs @ [x]) s = ebind (efold f xs s) (f x)"
proof -
  have "efold f [] = Inr" by (rule ext) simp
  then have "efold f [x] = f x" by (intro ext) (simp add: ebind_return)
  then show ?thesis by (simp add: efold_append)
qed

lemma set1_in: "i < length xs \<Longrightarrow> set1 xs i v = Inr (xs[i := v])"
  by (simp add: set1_def)

lemma accumulate_in:
  "l < length out \<Longrightarrow> m < length masses \<Longrightarrow>
   accumulate out masses l m call =
     ebind call (\<lambda>k. Inr (out[l := fadd (out ! l) (fmul (Fin (masses ! m)) k)]))"
  by (simp add: accumulate_def get1_in set1_in)

lemma acc_terms_snoc:
  "acc_terms (ts @ [t]) a =
     ebind (acc_terms ts a) (\<lambda>a. ebind (snd t) (\<lambda>k. Inr (fadd a (fmul (Fin (fst t)) k))))"
  by (simp add: acc_terms_def efold_snoc)

lemma acc_terms_append: "acc_terms (ts @ us) a = ebind (acc_terms ts a) (acc_terms us)"
  unfolding acc_terms_def by (rule efold_append)

lemma pair_terms_Suc:
  "pair_terms masses call (Suc M) = pair_terms masses call M @ [(masses ! M, call M)]"
  by (simp add: pair_terms_def)

lemma inner_loop:
  assumes "l < length out" "M \<le> length masses"
  shows "efold (\<lambda>m out. accumulate out masses l m (call m)) [0..<M] out =
           ebind (acc_terms (pair_terms masses call M) (out ! l)) (\<lambda>v. Inr (out[l := v]))"
  using assms(2)
proof (induction M)
  case 0
  then show ?case by (simp add: pair_terms_def acc_terms_def)
next
  case (Suc M)
  then have IH: "efold (\<lambda>m out. accumulate out masses l m (call m)) [0..<M] out =
           ebind (acc_terms (pair_terms masses call M) (out ! l)) (\<lambda>v. Inr (out[l := v]))"
    and M: "M < length masses" by auto
  show ?case
  proof (cases "acc_terms (pair_terms masses call M) (out ! l)")
    case (Inl e)
    then show ?thesis by (simp add: efold_snoc IH pair_terms_Suc acc_terms_snoc)
  next
    case (Inr v)
    then show ?thesis
      using assms(1) M
      by (cases "call M") (simp_all add: efold_snoc IH pair_terms_Suc acc_terms_snoc accumulate_in)
  qed
qed

lemma double_loop_iff:
  assumes "N \<le> length out" "M \<le> length masses"
  shows "efold (\<lambda>l. efold (\<lambda>m out. accumulate out masses l m (call l m)) [0..<M]) [0..<N] out = Inr r
         \<longleftrightarrow> (length r = length out \<and>
              (\<forall>l<N. acc_terms (pair_terms masses (call l) M) (out ! l) = Inr (r ! l)) \<and>
              (\<forall>l. N \<le> l \<and> l < length out \<longrightarrow> r ! l = out ! l))"
  using assms(1)
proof (induction N arbitrary: r)
  case 0
  show ?case by (auto simp: list_eq_iff_nth_eq)
next
  case (Suc N)
  let ?body = "\<lambda>l. efold (\<lambda>m out. accumulate out masses l m (call l m)) [0..<M]"
  let ?g = "\<lambda>l. acc_terms (pair_terms masses (call l) M)"
  from Suc.prems have N: "N < length out" by simp
  have IH: "\<And>r. efold ?body [0..<N] out = Inr r \<longleftrightarrow>
      (length r = length out \<and> (\<forall>l<N. ?g l (out ! l) = Inr (r ! l)) \<and>
       (\<forall>l. N \<le> l \<and> l < length out \<longrightarrow> r ! l = out ! l))"
    using Suc.IH N by simp
  show ?case
  proof
    assume run: "efold ?body [0..<Suc N] out = Inr r"
    then obtain r' where r': "efold ?body [0..<N] out = Inr r'" and step: "?body N r' = Inr r"
      by (cases "efold ?body [0..<N] out") (auto simp: efold_snoc)
    from r' IH have p: "length r' = length out" "\<forall>l<N. ?g l (out ! l) = Inr (r' ! l)"
      "\<forall>l. N \<le> l \<and> l < length out \<longrightarrow> r' ! l = out ! l" by auto
    from p(1) N have Nr: "N < length r'" by simp
    from step inner_loop [OF Nr assms(2), of "call N"]
    obtain v where v: "?g N (r' ! N) = Inr v" "r = r'[N := v]"
      by (cases "?g N (r' ! N)") auto
    from p(3) N have "r' ! N = out ! N" by simp
    with v p N Nr show "length r = length out \<and> (\<forall>l<Suc N. ?g l (out ! l) = Inr (r ! l)) \<and>
       (\<forall>l. Suc N \<le> l \<and> l < length out \<longrightarrow> r ! l = out ! l)"
      by (auto simp: less_Suc_eq nth_list_update)
  next
    assume a: "length r = length out \<and> (\<forall>l<Suc N. ?g l (out ! l) = Inr (r ! l)) \<and>
       (\<forall>l. Suc N \<le> l \<and> l < length out \<longrightarrow> r ! l = out ! l)"
    define r' where "r' = r[N := out ! N]"
    have "length r' = length out \<and> (\<forall>l<N. ?g l (out ! l) = Inr (r' ! l)) \<and>
       (\<forall>l. N \<le> l \<and> l < length out \<longrightarrow> r' ! l = out ! l)"
      using a N by (auto simp: r'_def nth_list_update)
    with IH have r': "efold ?body [0..<N] out = Inr r'" by blast
    have Nr: "N < length r'" using a N by (simp add: r'_def)
    have "r' ! N = out ! N" using a N by (simp add: r'_def)
    moreover from a have "?g N (out ! N) = Inr (r ! N)" by simp
    moreover have "r'[N := r ! N] = r" by (simp add: r'_def)
    ultimately have "?body N r' = Inr r"
      using inner_loop [OF Nr assms(2), of "call N"] by simp
    with r' show "efold ?body [0..<Suc N] out = Inr r" by (simp add: efold_snoc)
  qed
qed

lemma fadd_assoc: "fadd (fadd a b) c = fadd a (fadd b c)"
  by (cases a; cases b; cases c) simp_all

lemma fadd_zero: "fadd (Fin 0) a = a" "fadd a (Fin 0) = a"
  by (cases a; simp)+

lemma fmul_fadd: "fmul (fadd a b) c = fadd (fmul a c) (fmul b c)"
  by (cases a; cases b; cases c) (simp_all add: algebra_simps)

lemma acc_terms_shift:
  "acc_terms ts a = ebind (acc_terms ts (Fin 0)) (\<lambda>v. Inr (fadd a v))"
proof (induction ts rule: rev_induct)
  case Nil
  then show ?case by (simp add: acc_terms_def fadd_zero)
next
  case (snoc t ts)
  show ?case
    by (cases "acc_terms ts (Fin 0)"; cases "snd t")
       (simp_all add: acc_terms_snoc snoc.IH fadd_assoc)
qed

lemma acc_terms_total:
  assumes "\<forall>t \<in> set ts. \<exists>k. snd t = Inr k"
  shows "\<exists>v. acc_terms ts a = Inr v"
proof -
  have "\<exists>s'. efold (\<lambda>t a. ebind (snd t) (\<lambda>k. Inr (fadd a (fmul (Fin (fst t)) k)))) ts a = Inr s' \<and> True"
    by (rule efold_inv [where I = "\<lambda>_. True"]) (use assms in auto)
  then show ?thesis by (simp add: acc_terms_def)
qed

section \<open>Dispatch and sources put together\<close>

lemma dispatch_loop:
  assumes "coordinate_system \<in> {''cartesian'', ''spherical''}"
    and "field_in_kernels coordinate_system field"
  shows "dispatch coordinate_system field coordinates points masses out =
           efold (\<lambda>l. efold (\<lambda>m out. accumulate out masses l m
                                       (pair_call coordinate_system field coordinates points l m))
                            [0..<length (fst points)])
                 [0..<length (fst coordinates)] out"
proof (cases "coordinate_system = ''cartesian''")
  case True
  with assms(2) obtain kern where "kernels_cartesian field = Some kern"
    by (auto simp: field_in_kernels_def)
  with True show ?thesis
    by (simp add: dispatch_def pair_call_def jit_point_mass_cartesian_def)
next
  case False
  with assms have sph: "coordinate_system = ''spherical''" by simp
  with assms(2) obtain kern where k: "kernels_spherical field = Some kern"
    by (auto simp: field_in_kernels_def)
  obtain a b c where c: "coordinates = (a, b, c)" by (cases coordinates)
  obtain a' b' c' where p: "points = (a', b', c')" by (cases points)
  show ?thesis
    using sph k by (simp add: dispatch_def pair_call_def jit_point_mass_spherical_def c p Let_def)
qed

lemma broadcast_size_ok: "coords_ok c \<Longrightarrow> broadcast_size c = Inr (length (fst c))"
  by (cases c) (auto simp: coords_ok_def Let_def list_all_iff split: list.splits)

lemma get1_append_left: "i < length xs \<Longrightarrow> get1 (xs @ ys) i = get1 xs i"
  by (simp add: get1_def nth_append)

lemma get1_append_right: "length xs = n \<Longrightarrow> get1 (xs @ ys) (n + i) = get1 ys i"
  by (auto simp: get1_def)

lemma pair_call_append_left:
  assumes "coords_ok p1" "m < length (fst p1)"
  shows "pair_call cs field c (append_coords p1 p2) l m = pair_call cs field c p1 l m"
proof -
  obtain a b d where p1: "p1 = (a, b, d)" by (cases p1)
  obtain a' b' d' where p2: "p2 = (a', b', d')" by (cases p2)
  obtain x y z where c: "c = (x, y, z)" by (cases c)
  from assms have m: "m < length a" "m < length b" "m < length d" by (auto simp: coords_ok_def p1)
  show ?thesis
    using m by (auto simp: pair_call_def p1 p2 c get1_append_left Let_def split: option.splits)
qed

lemma pair_call_append_right:
  assumes "coords_ok p1"
  shows "pair_call cs field c (append_coords p1 p2) l (length (fst p1) + m) = pair_call cs field c p2 l m"
proof -
  obtain a b d where p1: "p1 = (a, b, d)" by (cases p1)
  obtain a' b' d' where p2: "p2 = (a', b', d')" by (cases p2)
  obtain x y z where c: "c = (x, y, z)" by (cases c)
  from assms have len: "length b = length a" "length d = length a" by (auto simp: coords_ok_def p1)
  show ?thesis
    by (auto simp: pair_call_def p1 p2 c len get1_append_right Let_def split: option.splits)
qed

lemma pair_terms_append:
  assumes "length ms1 = M1" "\<And>m. m < M1 \<Longrightarrow> call12 m = call1 m"
    "\<And>m. m < M2 \<Longrightarrow> call12 (M1 + m) = call2 m"
  shows "pair_terms (ms1 @ ms2) call12 (M1 + M2) = pair_terms ms1 call1 M1 @ pair_terms ms2 call2 M2"
proof (rule nth_equalityI)
  show "length (pair_terms (ms1 @ ms2) call12 (M1 + M2)) =
        length (pair_terms ms1 call1 M1 @ pair_terms ms2 call2 M2)"
    by (simp add: pair_terms_def)
next
  fix i assume "i < length (pair_terms (ms1 @ ms2) call12 (M1 + M2))"
  then have i: "i < M1 + M2" by (simp add: pair_terms_def)
  show "pair_terms (ms1 @ ms2) call12 (M1 + M2) ! i =
        (pair_terms ms1 call1 M1 @ pair_terms ms2 call2 M2) ! i"
  proof (cases "i < M1")
    case True
    with assms(1,2) i show ?thesis by (simp add: pair_terms_def nth_append)
  next
    case False
    then obtain m where m: "i = M1 + m" by (metis le_add_diff_inverse not_less)
    with i have "m < M2" by simp
    with assms(1) assms(3) [of m] m show ?thesis by (simp add: pair_terms_def nth_append)
  qed
qed

section \<open>\<^verbatim>\<open>point_mass_gravity\<close>: post-processing, superposition, validation\<close>

lemma dispatch_iff:
  assumes "coordinate_system \<in> {''cartesian'', ''spherical''}"
    and "field_in_kernels coordinate_system field"
    and "length (fst coordinates) \<le> length out"
    and "length (fst points) \<le> length masses"
  shows "dispatch coordinate_system field coordinates points masses out = Inr r \<longleftrightarrow>
         (length r = length out \<and>
          (\<forall>l < length (fst coordinates).
             acc_terms (pair_terms masses (pair_call coordinate_system field coordinates points l)
                          (length (fst points))) (out ! l) = Inr (r ! l)) \<and>
          (\<forall>l. length (fst coordinates) \<le> l \<and> l < length out \<longrightarrow> r ! l = out ! l))"
  unfolding dispatch_loop [OF assms(1,2)] by (rule double_loop_iff [OF assms(3,4)])

lemma point_mass_gravity_valid:
  assumes "coordinate_system \<in> {''cartesian'', ''spherical''}"
    and "field_in_kernels coordinate_system field"
  shows "point_mass_gravity G coordinates points masses field coordinate_system =
           ebind (broadcast_size coordinates) (\<lambda>n_out.
           ebind (dispatch coordinate_system field coordinates points masses
                    (replicate n_out (Fin 0))) (\<lambda>raw.
             Inr (map (\<lambda>r. if field \<in> {''g_r'', ''g_z''}
                            then fmul (fmul r (Fin G)) (Fin 100000) else fmul r (Fin G)) raw)))"
proof -
  have "ebind (dispatch coordinate_system field coordinates points masses (replicate n_out (Fin 0)))
          (\<lambda>result.
            let result = map (\<lambda>r. fmul r (Fin G)) result;
                result = (if field \<in> {''g_r'', ''g_z''}
                          then map (\<lambda>r. fmul r (Fin 100000)) result else result)
            in Inr result) =
        ebind (dispatch coordinate_system field coordinates points masses (replicate n_out (Fin 0)))
          (\<lambda>raw. Inr (map (\<lambda>r. if field \<in> {''g_r'', ''g_z''}
                            then fmul (fmul r (Fin G)) (Fin 100000) else fmul r (Fin G)) raw))"
    for n_out
    by (cases "dispatch coordinate_system field coordinates points masses (replicate n_out (Fin 0))")
       (simp_all add: Let_def)
  with assms show ?thesis
    by (cases "broadcast_size coordinates") (simp_all add: point_mass_gravity_def)
qed

text \<open>
  Claim C6. For every valid input (a supported coordinate system, a field of that
  system, coordinate arrays of one length, a mass for every source) whose raw
  pairwise sum at the computation point \<open>l\<close> is \<open>raw l\<close>, the output at \<open>l\<close> is
  \<open>raw l\<close> times the gravitational constant, times \<open>1e5\<close> as well exactly when the
  field is \<open>g_z\<close> or \<open>g_r\<close>; for the potential no such factor is applied.
\<close>

theorem point_mass_gravity_post_processing:
  assumes "coordinate_system \<in> {''cartesian'', ''spherical''}"
    and "field_in_kernels coordinate_system field"
    and "coords_ok coordinates"
    and "length (fst points) \<le> length masses"
    and "\<forall>l < length (fst coordinates).
           acc_terms (pair_terms masses (pair_call coordinate_system field coordinates points l)
                        (length (fst points))) (Fin 0) = Inr (raw l)"
  shows "point_mass_gravity G coordinates points masses field coordinate_system =
           Inr (map (\<lambda>l. if field \<in> {''g_r'', ''g_z''}
                          then fmul (fmul (raw l) (Fin G)) (Fin 100000)
                          else fmul (raw l) (Fin G))
                    [0..<length (fst coordinates)])"
proof -
  have "dispatch coordinate_system field coordinates points masses
          (replicate (length (fst coordinates)) (Fin 0)) = Inr (map raw [0..<length (fst coordinates)])"
    by (subst dispatch_iff [OF assms(1,2)]) (use assms(4,5) in auto)
  then show ?thesis
    by (simp add: point_mass_gravity_valid [OF assms(1,2)] broadcast_size_ok [OF assms(3)] comp_def)
qed

theorem point_mass_gravity_post_processing_witness:
  "point_mass_gravity (66743 / 10 ^ 15) ([0], [0], [0]) ([0], [0], [1]) [8] ''g_z'' ''cartesian''
     = Inr [Fin (8 * (66743 / 10 ^ 15) * 100000)] \<and>
   point_mass_gravity (66743 / 10 ^ 15) ([0], [0], [0]) ([0], [0], [2]) [8] ''potential'' ''cartesian''
     = Inr [Fin (4 * (66743 / 10 ^ 15))]"
proof -
  have v: "''cartesian'' \<in> {''cartesian'', ''spherical''}" by simp
  have f1: "field_in_kernels ''cartesian'' ''g_z''" "field_in_kernels ''cartesian'' ''potential''"
    by (simp_all add: field_in_kernels_def kernels_cartesian_def)
  have c: "coords_ok ([0], [0], [0])" by (simp add: coords_ok_def)
  have d1: "\<forall>l < length (fst ([0::real], [0::real], [0::real])).
           acc_terms (pair_terms [8] (pair_call ''cartesian'' ''g_z'' ([0], [0], [0]) ([0], [0], [1]) l)
                        (length (fst ([0::real], [0::real], [1::real])))) (Fin 0) = Inr (Fin 8)"
    by (simp add: acc_terms_def pair_terms_def pair_call_def kernels_cartesian_def
        get1_def kernel_g_z_def fdiv_def fpow_def)
  have d2: "\<forall>l < length (fst ([0::real], [0::real], [0::real])).
           acc_terms (pair_terms [8] (pair_call ''cartesian'' ''potential'' ([0], [0], [0]) ([0], [0], [2]) l)
                        (length (fst ([0::real], [0::real], [2::real])))) (Fin 0) = Inr (Fin 4)"
    by (simp add: acc_terms_def pair_terms_def pair_call_def kernels_cartesian_def
        get1_def kernel_potential_cartesian_def distance_cartesian_def fdiv_def)
  from point_mass_gravity_post_processing [OF v f1(1) c _ d1, of "66743 / 10 ^ 15"]
    point_mass_gravity_post_processing [OF v f1(2) c _ d2, of "66743 / 10 ^ 15"]
  show ?thesis by simp
qed

lemma length_fst_append_coords:
  "length (fst (append_coords p1 p2)) = length (fst p1) + length (fst p2)"
  by (cases p1; cases p2) simp

lemma point_mass_gravity_Inr:
  assumes "point_mass_gravity G coordinates points masses field coordinate_system = Inr r"
  shows "coordinate_system \<in> {''cartesian'', ''spherical''}"
    and "field_in_kernels coordinate_system field"
  using assms by (auto simp: point_mass_gravity_def split: if_splits)

text \<open>
  Claim C7. For every set of computation points and every two sets of sources with
  their masses (each a set of any size, so in particular a single source each), if
  the two calls with one set of sources each return \<open>r1\<close> and \<open>r2\<close>, then the call
  with both sets of sources returns their elementwise sum (in exact arithmetic).
\<close>

theorem point_mass_gravity_superposition:
  assumes c: "coords_ok coordinates"
    and p1: "coords_ok points1" "length masses1 = length (fst points1)"
    and p2: "coords_ok points2" "length masses2 = length (fst points2)"
    and r1: "point_mass_gravity G coordinates points1 masses1 field coordinate_system = Inr r1"
    and r2: "point_mass_gravity G coordinates points2 masses2 field coordinate_system = Inr r2"
  shows "point_mass_gravity G coordinates (append_coords points1 points2) (masses1 @ masses2)
           field coordinate_system = Inr (map (\<lambda>(a, b). fadd a b) (zip r1 r2))"
proof -
  let ?N = "length (fst coordinates)"
  let ?M1 = "length (fst points1)" and ?M2 = "length (fst points2)"
  let ?scale = "\<lambda>r. if field \<in> {''g_r'', ''g_z''}
                     then fmul (fmul r (Fin G)) (Fin 100000) else fmul r (Fin G)"
  let ?call = "pair_call coordinate_system field coordinates"
  note v = point_mass_gravity_Inr [OF r1]
  note bs = broadcast_size_ok [OF c]
  from r1 obtain raw1 where raw1:
    "dispatch coordinate_system field coordinates points1 masses1 (replicate ?N (Fin 0)) = Inr raw1"
    "r1 = map ?scale raw1"
    by (cases "dispatch coordinate_system field coordinates points1 masses1 (replicate ?N (Fin 0))")
       (auto simp: point_mass_gravity_valid [OF v] bs)
  from r2 obtain raw2 where raw2:
    "dispatch coordinate_system field coordinates points2 masses2 (replicate ?N (Fin 0)) = Inr raw2"
    "r2 = map ?scale raw2"
    by (cases "dispatch coordinate_system field coordinates points2 masses2 (replicate ?N (Fin 0))")
       (auto simp: point_mass_gravity_valid [OF v] bs)
  from raw1(1) p1(2) have f1: "length raw1 = ?N"
    "\<forall>l < ?N. acc_terms (pair_terms masses1 (?call points1 l) ?M1) (Fin 0) = Inr (raw1 ! l)"
    by (auto simp: dispatch_iff [OF v])
  from raw2(1) p2(2) have f2: "length raw2 = ?N"
    "\<forall>l < ?N. acc_terms (pair_terms masses2 (?call points2 l) ?M2) (Fin 0) = Inr (raw2 ! l)"
    by (auto simp: dispatch_iff [OF v])
  define raw where "raw = map (\<lambda>(a, b). fadd a b) (zip raw1 raw2)"
  have lraw: "length raw = ?N" using f1 f2 by (simp add: raw_def)
  have nraw: "raw ! l = fadd (raw1 ! l) (raw2 ! l)" if "l < ?N" for l
    using that f1 f2 by (simp add: raw_def)
  have terms: "pair_terms (masses1 @ masses2) (?call (append_coords points1 points2) l) (?M1 + ?M2)
        = pair_terms masses1 (?call points1 l) ?M1 @ pair_terms masses2 (?call points2 l) ?M2" for l
    by (rule pair_terms_append)
       (simp_all add: p1 pair_call_append_left [OF p1(1)] pair_call_append_right [OF p1(1)])
  have acc: "acc_terms (pair_terms (masses1 @ masses2) (?call (append_coords points1 points2) l)
               (?M1 + ?M2)) (Fin 0) = Inr (raw ! l)" if "l < ?N" for l
  proof -
    from f1 f2 that have a1: "acc_terms (pair_terms masses1 (?call points1 l) ?M1) (Fin 0) = Inr (raw1 ! l)"
      and a2: "acc_terms (pair_terms masses2 (?call points2 l) ?M2) (Fin 0) = Inr (raw2 ! l)"
      by auto
    have "acc_terms (pair_terms masses2 (?call points2 l) ?M2) (raw1 ! l)
          = Inr (fadd (raw1 ! l) (raw2 ! l))"
      by (subst acc_terms_shift) (simp add: a2)
    then show ?thesis by (simp add: terms acc_terms_append a1 nraw [OF that])
  qed
  have "dispatch coordinate_system field coordinates (append_coords points1 points2)
          (masses1 @ masses2) (replicate ?N (Fin 0)) = Inr raw"
    by (subst dispatch_iff [OF v])
       (auto simp: length_fst_append_coords p1 p2 lraw acc)
  then have "point_mass_gravity G coordinates (append_coords points1 points2) (masses1 @ masses2)
           field coordinate_system = Inr (map ?scale raw)"
    by (simp add: point_mass_gravity_valid [OF v] bs)
  moreover have "map ?scale raw = map (\<lambda>(a, b). fadd a b) (zip r1 r2)"
    by (rule nth_equalityI) (auto simp: raw1 raw2 lraw f1 f2 nraw fmul_fadd)
  ultimately show ?thesis by simp
qed

theorem point_mass_gravity_superposition_witness:
  "point_mass_gravity 1 ([0], [0], [0]) (append_coords ([0], [0], [1]) ([0], [0], [2])) ([8] @ [8])
     ''potential'' ''cartesian'' = Inr [Fin 12]"
proof -
  have c: "coords_ok ([0], [0], [0])" "coords_ok ([0], [0], [1])" "coords_ok ([0], [0], [2])"
    by (simp_all add: coords_ok_def)
  have r1: "point_mass_gravity 1 ([0], [0], [0]) ([0], [0], [1]) [8] ''potential'' ''cartesian''
            = Inr [Fin 8]"
    by (simp add: point_mass_gravity_def field_in_kernels_def kernels_cartesian_def
      dispatch_def jit_point_mass_cartesian_def accumulate_def get1_def set1_def
      kernel_potential_cartesian_def distance_cartesian_def fdiv_def)
  have r2: "point_mass_gravity 1 ([0], [0], [0]) ([0], [0], [2]) [8] ''potential'' ''cartesian''
            = Inr [Fin 4]"
    by (simp add: point_mass_gravity_def field_in_kernels_def kernels_cartesian_def
      dispatch_def jit_point_mass_cartesian_def accumulate_def get1_def set1_def
      kernel_potential_cartesian_def distance_cartesian_def fdiv_def)
  from point_mass_gravity_superposition [OF c(1) c(2) _ c(3) _ r1 r2]
  show ?thesis by simp
qed

lemma fdiv_cases: "(\<exists>k. fdiv a b = Inr k) \<or> fdiv a b = Inl ZeroDivisionError"
  by (cases a; cases b) (auto simp: fdiv_def)

lemma kernels_cartesian_cases:
  "kernels_cartesian field = Some kern \<Longrightarrow>
   (\<exists>k. kern e n d e_p n_p d_p = Inr k) \<or> kern e n d e_p n_p d_p = Inl ZeroDivisionError"
  using fdiv_cases
  by (auto simp: kernels_cartesian_def kernel_potential_cartesian_def kernel_g_z_def Let_def
      split: if_splits)

lemma kernels_spherical_cases:
  "kernels_spherical field = Some kern \<Longrightarrow>
   (\<exists>k. kern a b c d e f g h = Inr k) \<or> kern a b c d e f g h = Inl ZeroDivisionError"
  using fdiv_cases
  by (auto simp: kernels_spherical_def kernel_potential_spherical_def kernel_g_r_def Let_def
      split: if_splits)

lemma pair_call_cases:
  assumes "coordinate_system \<in> {''cartesian'', ''spherical''}"
    and "field_in_kernels coordinate_system field"
    and "coords_ok coordinates" "coords_ok points"
    and "l < length (fst coordinates)" "m < length (fst points)"
  shows "(\<exists>k. pair_call coordinate_system field coordinates points l m = Inr k) \<or>
         pair_call coordinate_system field coordinates points l m = Inl ZeroDivisionError"
proof -
  obtain a b d where c: "coordinates = (a, b, d)" by (cases coordinates)
  obtain a' b' d' where p: "points = (a', b', d')" by (cases points)
  from assms(3-6) have len: "l < length a" "l < length b" "l < length d"
    "m < length a'" "m < length b'" "m < length d'"
    by (auto simp: coords_ok_def c p)
  show ?thesis
  proof (cases "coordinate_system = ''cartesian''")
    case True
    with assms(2) obtain kern where k: "kernels_cartesian field = Some kern"
      by (auto simp: field_in_kernels_def)
    from kernels_cartesian_cases [OF k] True k len show ?thesis
      by (simp add: pair_call_def c p get1_in)
  next
    case False
    with assms(2) obtain kern where k: "kernels_spherical field = Some kern"
      by (auto simp: field_in_kernels_def)
    from kernels_spherical_cases [OF k] False k len show ?thesis
      by (simp add: pair_call_def c p get1_in Let_def)
  qed
qed

lemma point_mass_gravity_returns:
  assumes v: "coordinate_system \<in> {''cartesian'', ''spherical''}"
      "field_in_kernels coordinate_system field"
    and ok: "coords_ok coordinates" "coords_ok points" "length masses = length (fst points)"
    and nz: "\<forall>l < length (fst coordinates). \<forall>m < length (fst points).
               pair_call coordinate_system field coordinates points l m \<noteq> Inl ZeroDivisionError"
  shows "\<exists>out. point_mass_gravity G coordinates points masses field coordinate_system = Inr out \<and>
               length out = length (fst coordinates)"
proof -
  let ?N = "length (fst coordinates)" and ?M = "length (fst points)"
  let ?call = "pair_call coordinate_system field coordinates points"
  have "\<exists>x. acc_terms (pair_terms masses (?call l) ?M) (Fin 0) = Inr x" if "l < ?N" for l
  proof (rule acc_terms_total, rule ballI)
    fix t assume "t \<in> set (pair_terms masses (?call l) ?M)"
    then obtain m where m: "m < ?M" "snd t = ?call l m" by (auto simp: pair_terms_def)
    from pair_call_cases [OF v ok(1,2) that m(1)] nz that m show "\<exists>k. snd t = Inr k" by auto
  qed
  then have "\<forall>l<?N. \<exists>x. acc_terms (pair_terms masses (?call l) ?M) (Fin 0) = Inr x"
    by blast
  then obtain f where f: "\<forall>l<?N. acc_terms (pair_terms masses (?call l) ?M) (Fin 0) = Inr (f l)"
    by metis
  have "dispatch coordinate_system field coordinates points masses (replicate ?N (Fin 0))
        = Inr (map f [0..<?N])"
    by (subst dispatch_iff [OF v]) (auto simp: ok f)
  then show ?thesis
    by (simp add: point_mass_gravity_valid [OF v] broadcast_size_ok [OF ok(1)])
qed

text \<open>
  Claim C5, amended. An unsupported coordinate system, or a field that the chosen
  coordinate system does not have, makes \<^verbatim>\<open>point_mass_gravity\<close> fail with the
  \<open>ValueError\<close> of that check, whatever the arrays are (so before they are looked at).
  On a valid combination the whole output array, one value per computation point, is
  produced when the three coordinate arrays have one length, the three source arrays
  and the masses have one length, and no kernel call divides by zero.
\<close>

theorem point_mass_gravity_validation:
  "(coordinate_system \<notin> {''cartesian'', ''spherical''} \<longrightarrow>
      point_mass_gravity G coordinates points masses field coordinate_system =
        Inl (ValueError (''Coordinate system '' @ coordinate_system @ '' not recognized''))) \<and>
   (coordinate_system \<in> {''cartesian'', ''spherical''} \<and>
    \<not> field_in_kernels coordinate_system field \<longrightarrow>
      point_mass_gravity G coordinates points masses field coordinate_system =
        Inl (ValueError (''Gravity field '' @ field @ '' not recognized''))) \<and>
   (coordinate_system \<in> {''cartesian'', ''spherical''} \<and>
    field_in_kernels coordinate_system field \<and>
    coords_ok coordinates \<and> coords_ok points \<and> length masses = length (fst points) \<and>
    (\<forall>l < length (fst coordinates). \<forall>m < length (fst points).
       pair_call coordinate_system field coordinates points l m \<noteq> Inl ZeroDivisionError) \<longrightarrow>
      (\<exists>out. point_mass_gravity G coordinates points masses field coordinate_system = Inr out \<and>
             length out = length (fst coordinates)))"
  using point_mass_gravity_returns [of coordinate_system field coordinates points masses G]
  by (simp add: point_mass_gravity_def)

theorem point_mass_gravity_validation_witness:
  "point_mass_gravity (66743 / 10 ^ 15) ([0], [0], [0]) ([0], [0], [2]) [8] ''g_z'' ''polar'' =
     Inl (ValueError ''Coordinate system polar not recognized'') \<and>
   point_mass_gravity (66743 / 10 ^ 15) ([0], [0], [0]) ([0], [0], [2]) [8] ''g_r'' ''cartesian'' =
     Inl (ValueError ''Gravity field g_r not recognized'') \<and>
   (\<exists>out. point_mass_gravity (66743 / 10 ^ 15) ([0], [0], [0]) ([0], [0], [2]) [8]
            ''g_z'' ''cartesian'' = Inr out \<and> length out = 1)"
  using
    point_mass_gravity_validation [of "''polar''" "66743 / 10 ^ 15" "([0], [0], [0])"
      "([0], [0], [2])" "[8]" "''g_z''"]
    point_mass_gravity_validation [of "''cartesian''" "66743 / 10 ^ 15" "([0], [0], [0])"
      "([0], [0], [2])" "[8]" "''g_r''"]
    point_mass_gravity_validation [of "''cartesian''" "66743 / 10 ^ 15" "([0], [0], [0])"
      "([0], [0], [2])" "[8]" "''g_z''"]
  by (simp add: field_in_kernels_def kernels_cartesian_def coords_ok_def pair_call_def
      get1_def kernel_g_z_def fdiv_def fpow_def)

text \<open>
  The claim as stated, that the call fails only on an invalid combination: with the
  valid combination \<open>cartesian\<close> and \<open>potential\<close>, coordinate arrays of lengths 2, 3
  and 1 cannot be broadcast and the call fails.
\<close>

theorem point_mass_gravity_valid_but_fails_counterexample:
  "''cartesian'' \<in> {''cartesian'', ''spherical''} \<and> field_in_kernels ''cartesian'' ''potential'' \<and>
   point_mass_gravity (66743 / 10 ^ 15) ([0, 1], [0, 1, 2], [0]) ([0], [0], [1]) [1]
     ''potential'' ''cartesian''
     = Inl (ValueError ''shape mismatch: objects cannot be broadcast to a single shape'')"
  by (simp add: point_mass_gravity_def field_in_kernels_def kernels_cartesian_def
      dispatch_def jit_point_mass_cartesian_def accumulate_def get1_def set1_def
      kernel_potential_cartesian_def distance_cartesian_def fdiv_def)

section \<open>Top and bottom of a layer\<close>










section \<open>The coarsening driver\<close>

lemma efold_map: "efold f (map h xs) s = efold (\<lambda>x. f (h x)) xs s"
  by (induction xs arbitrary: s) (auto simp: ebind_def split: sum.splits)

lemma efold_pure:
  "(\<And>x s. x \<in> set xs \<Longrightarrow> f x s = Inr (h s x)) \<Longrightarrow> efold f xs s = Inr (foldl h s xs)"
  by (induction xs arbitrary: s) auto

lemma efold_skip: "(\<And>x s. x \<in> set xs \<Longrightarrow> f x s = Inr s) \<Longrightarrow> efold f xs s = Inr s"
  by (induction xs arbitrary: s) auto

lemma upto_map_int: "[0..int n - 1] = map int [0..<n]"
proof (induction n)
  case 0
  then show ?case by simp
next
  case (Suc n)
  have "[0..int (Suc n) - 1] = [0..int n - 1] @ [int n]"
    using upto_rec2 [of 0 "int n"] by simp
  with Suc show ?case by simp
qed

lemma foldl_concat_map:
  "foldl (\<lambda>r x. foldl f r (h x)) a xs = foldl f a (concat (map h xs))"
  by (induction xs arbitrary: a) auto

lemma range_step_less:
  assumes "x \<in> set (range_step n step)" "0 < step"
  shows "x < n"
proof -
  from assms obtain k where k: "x = k * step" "k < (n + step - 1) div step"
    by (auto simp: range_step_def)
  then have "Suc k \<le> (n + step - 1) div step" by simp
  then have "Suc k * step \<le> (n + step - 1) div step * step" by (rule mult_le_mono1)
  also have "\<dots> \<le> n + step - 1" by simp
  finally show ?thesis using assms(2) k by (cases n) auto
qed

lemma near_window_factor:
  assumes "near_window e n pe pn se sn fd factor = Inr w"
  shows "0 < factor"
proof (rule ccontr)
  assume "\<not> 0 < factor"
  then have "factor = 0" by simp
  with assms show False by (simp add: near_window_def floordiv_def)
qed

lemma fine_cell_in:
  assumes "grid_ok g" "i < length (prisms_easting g)" "j < length (prisms_northing g)"
  shows "fine_cell ff e n u g (prisms_northing g ! 1 - prisms_northing g ! 0)
           (prisms_easting g ! i - (prisms_easting g ! 1 - prisms_easting g ! 0) / 2)
           (prisms_easting g ! i + (prisms_easting g ! 1 - prisms_easting g ! 0) / 2)
           (int i) (int j) r
         = Inr (fadd r (fine_prism_value ff e n u g i j))"
proof -
  from assms have
    "get2 (prisms_bottom g) j i = Inr (prisms_bottom g ! j ! i)"
    "get2 (prisms_top g) j i = Inr (prisms_top g ! j ! i)"
    "get2 (prisms_densities g) j i = Inr (prisms_densities g ! j ! i)"
    by (auto simp: grid_ok_def intro!: get2_shape)
  with assms(3) show ?thesis
    by (simp add: fine_cell_def get1_in fine_prism_value_def Let_def)
qed

lemma fine_loop_all:
  assumes "grid_ok g"
  shows "fine_loop ff e n u g
           (prisms_easting g ! 1 - prisms_easting g ! 0)
           (prisms_northing g ! 1 - prisms_northing g ! 0)
           (0, int (length (prisms_easting g)), 0, int (length (prisms_northing g))) (Fin 0)
         = Inr (exact_sum ff e n u g)"
proof -
  let ?ne = "length (prisms_easting g)" and ?nn = "length (prisms_northing g)"
  let ?v = "\<lambda>i j. fine_prism_value ff e n u g i j"
  have inner: "efold (\<lambda>j. fine_cell ff e n u g (prisms_northing g ! 1 - prisms_northing g ! 0)
           (prisms_easting g ! i - (prisms_easting g ! 1 - prisms_easting g ! 0) / 2)
           (prisms_easting g ! i + (prisms_easting g ! 1 - prisms_easting g ! 0) / 2)
           (int i) (int j)) [0..<?nn] r = Inr (foldl fadd r (map (?v i) [0..<?nn]))"
    if "i < ?ne" for i r
  proof -
    have "efold (\<lambda>j. fine_cell ff e n u g (prisms_northing g ! 1 - prisms_northing g ! 0)
           (prisms_easting g ! i - (prisms_easting g ! 1 - prisms_easting g ! 0) / 2)
           (prisms_easting g ! i + (prisms_easting g ! 1 - prisms_easting g ! 0) / 2)
           (int i) (int j)) [0..<?nn] r = Inr (foldl (\<lambda>r j. fadd r (?v i j)) r [0..<?nn])"
    proof (rule efold_pure)
      fix j s assume "j \<in> set [0..<?nn]"
      then have "j < ?nn" by simp
      from fine_cell_in [OF assms that this]
      show "fine_cell ff e n u g (prisms_northing g ! 1 - prisms_northing g ! 0)
           (prisms_easting g ! i - (prisms_easting g ! 1 - prisms_easting g ! 0) / 2)
           (prisms_easting g ! i + (prisms_easting g ! 1 - prisms_easting g ! 0) / 2)
           (int i) (int j) s = Inr (fadd s (?v i j))" .
    qed
    then show ?thesis by (simp add: foldl_map)
  qed
  have "fine_loop ff e n u g
           (prisms_easting g ! 1 - prisms_easting g ! 0)
           (prisms_northing g ! 1 - prisms_northing g ! 0)
           (0, int ?ne, 0, int ?nn) (Fin 0)
        = Inr (foldl (\<lambda>r i. foldl fadd r (map (?v i) [0..<?nn])) (Fin 0) [0..<?ne])"
    unfolding fine_loop_def prod.case upto_map_int efold_map
    by (rule efold_pure) (use inner in \<open>simp add: get1_in Let_def\<close>)
  then show ?thesis by (simp add: foldl_concat_map exact_sum_def fsum_def)
qed

lemma coarse_loop_none:
  assumes "grid_ok g" "0 < factor"
  shows "coarse_loop ff e n u g se sn factor
           (0, int (length (prisms_easting g)), 0, int (length (prisms_northing g))) r = Inr r"
  unfolding coarse_loop_def
proof (rule efold_skip)
  fix i s assume "i \<in> set (range_step (length (prisms_easting g)) factor)"
  then have i: "i < length (prisms_easting g)" using assms(2) by (rule range_step_less)
  have "efold (coarse_cell ff e n u g sn factor
           (0, int (length (prisms_easting g)), 0, int (length (prisms_northing g))) west east i)
          (range_step (length (prisms_northing g)) factor) s = Inr s" for west east
    by (rule efold_skip) (use i assms(2) range_step_less in \<open>auto simp: coarse_cell_def\<close>)
  with i show "ebind (get1 (prisms_easting g) i) (\<lambda>e_i.
       let west = e_i - 0.5 * se;
           east = e_i + (real factor - 0.5) * se
       in efold (coarse_cell ff e n u g sn factor
                   (0, int (length (prisms_easting g)), 0, int (length (prisms_northing g)))
                   west east i)
            (range_step (length (prisms_northing g)) factor) s) = Inr s"
    by (simp add: get1_in Let_def)
qed

text \<open>
  Claim C4. For every observation point and every factor, when the near window
  computed from \<open>fine_distance\<close> covers the entire grid (\<open>i_min = 0\<close>,
  \<open>i_max\<close> the number of eastings, \<open>j_min = 0\<close>, \<open>j_max\<close> the number of northings),
  the driver returns the exact summation over all fine prisms: every block of the
  coarser grid is skipped and no coarse term is added. (That the window is computed
  at all already excludes the factor 0.)
\<close>

theorem gravity_coarser_window_covers_grid:
  assumes "grid_ok g"
    and "near_window easting northing (prisms_easting g) (prisms_northing g)
           (prisms_easting g ! 1 - prisms_easting g ! 0)
           (prisms_northing g ! 1 - prisms_northing g ! 0) fine_distance factor
         = Inr (0, int (length (prisms_easting g)), 0, int (length (prisms_northing g)))"
  shows "gravity_coarser_point forward_func easting northing upward g fine_distance factor
         = Inr (exact_sum forward_func easting northing upward g)"
proof -
  from assms(1) have "1 < length (prisms_easting g)" "0 < length (prisms_easting g)"
    "1 < length (prisms_northing g)" "0 < length (prisms_northing g)"
    by (auto simp: grid_ok_def)
  then show ?thesis
    using assms(2) fine_loop_all [OF assms(1)]
      coarse_loop_none [OF assms(1) near_window_factor [OF assms(2)]]
    by (simp add: gravity_coarser_point_def get1_in Let_def)
qed

theorem gravity_coarser_window_covers_grid_witness:
  "grid_ok small_grid \<and>
   near_window 0 0 [0, 1] [0, 1] 1 1 10 2 = Inr (0, 2, 0, 2) \<and>
   gravity_coarser_point mass_probe 0 0 1 small_grid 10 2 = Inr (Fin 10)"
proof -
  have h1: "grid_ok small_grid" by code_simp
  have h2: "near_window 0 0 (prisms_easting small_grid) (prisms_northing small_grid)
           (prisms_easting small_grid ! 1 - prisms_easting small_grid ! 0)
           (prisms_northing small_grid ! 1 - prisms_northing small_grid ! 0) 10 2
         = Inr (0, int (length (prisms_easting small_grid)), 0,
                int (length (prisms_northing small_grid)))"
    by code_simp
  have h3: "near_window 0 0 [0, 1] [0, 1] 1 1 10 2 = Inr (0, 2, 0, 2)" by code_simp
  have h4: "exact_sum mass_probe 0 0 1 small_grid = Fin 10" by code_simp
  from gravity_coarser_window_covers_grid [OF h1 h2, of mass_probe 1] h1 h3 h4
  show ?thesis by simp
qed

section \<open>The near window and the blocks of the coarser grid\<close>

text \<open>
  Claim C2 says that the near region consists exactly of the fine prisms whose
  centres lie within \<open>fine_distance\<close> of the observation point along each axis. The
  code divides by the spacing of the coarser grid (\<open>factor\<close> times the prism size) and
  uses the quotients as indices of fine prisms. On the 4 by 4 unit grid, with the
  observation point above the prism centred at \<open>(3, 3)\<close>, \<open>fine_distance = 1/2\<close> and
  \<open>factor = 2\<close>, the window is \<open>[1, 2) \<times> [1, 2)\<close>: the loop over the finer grid makes
  one kernel call, for the prism centred at \<open>(1, 1)\<close>, which is 2 away along each axis,
  and none for the prism centred at the observation point.
\<close>

theorem near_window_in_coarse_units:
  "near_window 3 3 [0, 1, 2, 3] [0, 1, 2, 3] 1 1 (1 / 2) 2 = Inr (1, 2, 1, 2) \<and>
   fine_loop count_probe 3 3 10 unit_grid 1 1 (1, 2, 1, 2) (Fin 0) = Inr (Fin 1) \<and>
   fine_loop (covers_probe 1 1) 3 3 10 unit_grid 1 1 (1, 2, 1, 2) (Fin 0) = Inr (Fin 1) \<and>
   fine_loop (covers_probe 3 3) 3 3 10 unit_grid 1 1 (1, 2, 1, 2) (Fin 0) = Inr (Fin 0)"
  by code_simp

text \<open>
  Claim C1 says that no fine prism is counted both inside the near window and inside
  an evaluated coarse block. The code skips a block only when the index of its first
  prism lies in the window. On the same input the window holds the fine prism
  \<open>(1, 1)\<close> alone, no block starts there, and all four blocks are evaluated: the point
  \<open>(1, 1)\<close> is covered by two evaluated prisms (the fine one and the block starting
  at \<open>(0, 0)\<close>), and the mass summed by the driver is 17 where the grid holds 16.
\<close>

theorem gravity_coarser_double_counts:
  "gravity_coarser_point (covers_probe 1 1) 3 3 10 unit_grid (1 / 2) 2 = Inr (Fin 2) \<and>
   gravity_coarser_point mass_probe 3 3 10 unit_grid (1 / 2) 2 = Inr (Fin 17) \<and>
   exact_sum mass_probe 3 3 10 unit_grid = Fin 16"
  by code_simp

end
